theory Spec2Isabelle
  imports Complex_Main
begin

section \<open>Numbers, errors and outcomes\<close>

text \<open>
  The TypeScript sources compute with \<^verbatim>\<open>number\<close>. Token counts, capacities, rates and
  clock readings (milliseconds) are modelled as exact rationals, and so is the bound
  \<^verbatim>\<open>maxHistoryRecords\<close>, which may be any positive number; the efficiency window size is
  a natural number. The code computes in IEEE doubles, whose operations round; the
  properties below are case analyses and order properties on the values that each operation
  leaves, and none rests on an identity between two different orders of computation. A call reads the injected clock several times; the model passes one
  reading \<open>now\<close> to every call, the value the clock has during that call.

  A method that can throw returns a pair: the outcome (\<open>Inl\<close> the thrown error,
  \<open>Inr\<close> the returned value) and the object's state when the call ends, so that every
  assignment made before a throw is visible in the model.
\<close>

text \<open>
  \<^verbatim>\<open>Error\<close> and \<^verbatim>\<open>InvalidConfigError\<close> carry their message. \<^verbatim>\<open>RateLimitError\<close> carries
  its \<^verbatim>\<open>reason\<close> and its \<^verbatim>\<open>availableIn\<close>, a whole number of milliseconds; its message,
  which prints numbers, is left out.
\<close>

datatype limit_reason = rpm_limit | tpm_limit

datatype error =
    Error string
  | InvalidConfigError string
  | RateLimitError limit_reason int

section \<open>token-bucket.ts\<close>

record TokenBucketConfig =
  c_capacity :: rat
  c_refillRate :: rat
  c_initialTokens :: "rat option"

record TokenBucketState =
  s_available :: rat
  s_capacity :: rat
  s_lastRefill :: rat

text \<open>
  The private fields \<^verbatim>\<open>_capacity\<close>, \<^verbatim>\<open>_available\<close>, \<^verbatim>\<open>_refillRate\<close>, \<^verbatim>\<open>_lastRefill\<close>.
  \<open>b_storage\<close> holds whether \<^verbatim>\<open>_storage\<close> and \<^verbatim>\<open>_storageKey\<close> are both set, which is
  what \<^verbatim>\<open>persistState\<close> tests; what is written to the storage is not modelled.
\<close>

record TokenBucket =
  b_capacity :: rat
  b_available :: rat
  b_refillRate :: rat
  b_lastRefill :: rat
  b_storage :: bool

definition validateConfig :: "TokenBucketConfig \<Rightarrow> error option" where
  "validateConfig config =
     (if c_capacity config \<le> 0 then Some (InvalidConfigError ''Capacity must be greater than 0'')
      else if c_refillRate config \<le> 0
        then Some (InvalidConfigError ''Refill rate must be greater than 0'')
      else if c_initialTokens config \<noteq> None \<and> the (c_initialTokens config) < 0
        then Some (InvalidConfigError ''Initial tokens cannot be negative'')
      else if c_initialTokens config \<noteq> None \<and> the (c_initialTokens config) > c_capacity config
        then Some (InvalidConfigError ''Initial tokens cannot exceed capacity'')
      else None)"

definition new_TokenBucket :: "TokenBucketConfig \<Rightarrow> bool \<Rightarrow> rat \<Rightarrow> error + TokenBucket" where
  "new_TokenBucket config storage now =
     (case validateConfig config of
        Some e \<Rightarrow> Inl e
      | None \<Rightarrow> Inr \<lparr> b_capacity = c_capacity config,
                      b_available = (case c_initialTokens config of
                                       Some n \<Rightarrow> n | None \<Rightarrow> c_capacity config),
                      b_refillRate = c_refillRate config,
                      b_lastRefill = now,
                      b_storage = storage \<rparr>)"

definition refill :: "TokenBucket \<Rightarrow> rat \<Rightarrow> TokenBucket" where
  "refill b now =
     (let timePassed = (now - b_lastRefill b) / 1000 in
      if timePassed \<le> 0 then b
      else let tokensToAdd = timePassed * b_refillRate b in
           b \<lparr> b_available := min (b_capacity b) (b_available b + tokensToAdd),
               b_lastRefill := now \<rparr>)"

definition capacity :: "TokenBucket \<Rightarrow> rat" where
  "capacity b = b_capacity b"

definition available :: "TokenBucket \<Rightarrow> rat \<Rightarrow> rat \<times> TokenBucket" where
  "available b now = (let b1 = refill b now in (b_available b1, b1))"

definition hasTokens :: "TokenBucket \<Rightarrow> rat \<Rightarrow> rat \<Rightarrow> bool \<times> TokenBucket" where
  "hasTokens b now count =
     (if count < 0 then (False, b)
      else let b1 = refill b now in (b_available b1 \<ge> count, b1))"

definition getState :: "TokenBucket \<Rightarrow> rat \<Rightarrow> TokenBucketState \<times> TokenBucket" where
  "getState b now =
     (let b1 = refill b now in
      (\<lparr> s_available = b_available b1, s_capacity = b_capacity b1,
         s_lastRefill = b_lastRefill b1 \<rparr>, b1))"

text \<open>\<^verbatim>\<open>persistState\<close> calls \<^verbatim>\<open>getState\<close>, which refills, when a storage is attached.\<close>

definition persistState :: "TokenBucket \<Rightarrow> rat \<Rightarrow> TokenBucket" where
  "persistState b now = (if \<not> b_storage b then b else snd (getState b now))"

definition bucket_consume :: "TokenBucket \<Rightarrow> rat \<Rightarrow> rat \<Rightarrow> (error + bool) \<times> TokenBucket" where
  "bucket_consume b now count =
     (if count < 0 then (Inl (Error ''Cannot consume negative tokens''), b)
      else let b1 = refill b now in
           if b_available b1 \<ge> count
           then (Inr True, persistState (b1 \<lparr> b_available := b_available b1 - count \<rparr>) now)
           else (Inr False, b1))"

definition refund :: "TokenBucket \<Rightarrow> rat \<Rightarrow> rat \<Rightarrow> (error + unit) \<times> TokenBucket" where
  "refund b now count =
     (if count < 0 then (Inl (Error ''Cannot refund negative tokens''), b)
      else (Inr (),
            persistState
              (b \<lparr> b_available := min (b_capacity b) (b_available b + count) \<rparr>) now))"

definition timeUntilNextToken :: "TokenBucket \<Rightarrow> rat \<Rightarrow> int \<times> TokenBucket" where
  "timeUntilNextToken b now =
     (let b1 = refill b now in
      if b_available b1 \<ge> 1 then (0, b1)
      else (\<lceil>(1 - b_available b1) / b_refillRate b1 * 1000\<rceil>, b1))"

definition timeUntilTokens :: "TokenBucket \<Rightarrow> rat \<Rightarrow> rat \<Rightarrow> int \<times> TokenBucket" where
  "timeUntilTokens b now count =
     (if count \<le> 0 then (0, b)
      else let b1 = refill b now in
           if b_available b1 \<ge> count then (0, b1)
           else let needed = count - b_available b1 in
                (\<lceil>needed / b_refillRate b1 * 1000\<rceil>, b1))"

definition bucket_reset :: "TokenBucket \<Rightarrow> rat \<Rightarrow> TokenBucket" where
  "bucket_reset b now =
     persistState (b \<lparr> b_available := b_capacity b, b_lastRefill := now \<rparr>) now"

definition restoreState :: "TokenBucket \<Rightarrow> TokenBucketState \<Rightarrow> (error + unit) \<times> TokenBucket" where
  "restoreState b state =
     (if s_available state < 0 \<or> s_available state > s_capacity state
        then (Inl (Error ''Invalid state: available tokens out of range''), b)
      else if s_capacity state \<noteq> b_capacity b
        then (Inl (Error ''Invalid state: capacity mismatch''), b)
      else (Inr (), b \<lparr> b_available := s_available state,
                        b_lastRefill := s_lastRefill state \<rparr>))"

definition validateConsistency :: "TokenBucket \<Rightarrow> rat \<Rightarrow> bool \<times> TokenBucket" where
  "validateConsistency b now =
     (let b1 = refill b now in
      (b_available b1 \<ge> 0 \<and> b_available b1 \<le> b_capacity b1 \<and> b_capacity b1 > 0
         \<and> b_refillRate b1 > 0, b1))"

subsection \<open>Sequences of bucket calls\<close>

text \<open>
  One call on a bucket, made when the clock reads the given value. \<open>Read\<close> stands for
  the getter \<^verbatim>\<open>available\<close>: a time advance shows at the next call, and a call that only
  reads still performs the lazy refill.
\<close>

datatype bucket_call =
    Consume rat
  | Refund rat
  | Reset
  | Restore TokenBucketState
  | Read

fun bucket_step :: "TokenBucket \<Rightarrow> rat \<times> bucket_call \<Rightarrow> TokenBucket" where
  "bucket_step b (now, Consume n) = snd (bucket_consume b now n)"
| "bucket_step b (now, Refund n) = snd (refund b now n)"
| "bucket_step b (now, Reset) = bucket_reset b now"
| "bucket_step b (now, Restore st) = snd (restoreState b st)"
| "bucket_step b (now, Read) = snd (available b now)"

definition bucket_run :: "TokenBucket \<Rightarrow> (rat \<times> bucket_call) list \<Rightarrow> TokenBucket" where
  "bucket_run b calls = foldl bucket_step b calls"

text \<open>The invariant of the data model, on the fields as they are stored.\<close>

definition bucket_inv :: "TokenBucket \<Rightarrow> bool" where
  "bucket_inv b \<longleftrightarrow>
     0 \<le> b_available b \<and> b_available b \<le> b_capacity b \<and> 0 < b_capacity b
       \<and> 0 < b_refillRate b"

section \<open>utils/validation.ts\<close>

datatype AdjustmentFailureStrategy = strict | warn | compensate

text \<open>
  The configuration of the engine, without the clock, the logger and the custom validation
  rules. \<open>cfg_storage\<close> holds whether a storage implementation was passed.
\<close>

record LLMThrottleConfig =
  cfg_rpm :: rat
  cfg_tpm :: rat
  cfg_burstRPM :: "rat option"
  cfg_burstTPM :: "rat option"
  cfg_adjustmentFailureStrategy :: "AdjustmentFailureStrategy option"
  cfg_maxHistoryRecords :: "rat option"
  cfg_historyRetentionMs :: "rat option"
  cfg_efficiencyWindowSize :: "nat option"
  cfg_storage :: bool

text \<open>JavaScript's \<^verbatim>\<open>x || d\<close> on an optional number: \<open>d\<close> when \<open>x\<close> is undefined or zero.\<close>

definition or_default :: "'a::zero option \<Rightarrow> 'a \<Rightarrow> 'a" where
  "or_default x d = (case x of None \<Rightarrow> d | Some v \<Rightarrow> if v = 0 then d else v)"

text \<open>
  The messages of the rules of \<^verbatim>\<open>defaultValidationRules\<close> whose level is \<^verbatim>\<open>error\<close>, in
  the order of the rules. The rules of level \<^verbatim>\<open>warn\<close> only write to the logger.
\<close>

definition validateConfig_errors :: "LLMThrottleConfig \<Rightarrow> string list" where
  "validateConfig_errors config =
     (if cfg_rpm config > 0 then [] else [''RPM must be greater than 0''])
     @ (if cfg_tpm config > 0 then [] else [''TPM must be greater than 0''])
     @ (if cfg_burstRPM config \<noteq> None \<and> the (cfg_burstRPM config) < cfg_rpm config
        then [''Burst RPM cannot be less than RPM''] else [])
     @ (if cfg_burstTPM config \<noteq> None \<and> the (cfg_burstTPM config) < cfg_tpm config
        then [''Burst TPM cannot be less than TPM''] else [])
     @ (if cfg_historyRetentionMs config \<noteq> None \<and> the (cfg_historyRetentionMs config) \<le> 0
        then [''History retention must be positive''] else [])
     @ (if cfg_maxHistoryRecords config \<noteq> None \<and> the (cfg_maxHistoryRecords config) \<le> 0
        then [''Max history records must be positive''] else [])
     @ (if cfg_efficiencyWindowSize config \<noteq> None
           \<and> the (cfg_efficiencyWindowSize config) \<le> 0
        then [''Efficiency window size must be positive''] else [])"

fun join :: "string \<Rightarrow> string list \<Rightarrow> string" where
  "join sep [] = []"
| "join sep [x] = x"
| "join sep (x # y # ys) = x @ sep @ join sep (y # ys)"

definition validateAndNormalizeConfig :: "LLMThrottleConfig \<Rightarrow> error + LLMThrottleConfig" where
  "validateAndNormalizeConfig config =
     (let errors = validateConfig_errors config in
      if errors \<noteq> []
      then Inl (Error (''Configuration validation failed: '' @ join '', '' errors))
      else Inr (config
        \<lparr> cfg_adjustmentFailureStrategy :=
            Some (case cfg_adjustmentFailureStrategy config of None \<Rightarrow> warn | Some s \<Rightarrow> s),
          cfg_maxHistoryRecords := Some (or_default (cfg_maxHistoryRecords config) 10000),
          cfg_historyRetentionMs := Some (or_default (cfg_historyRetentionMs config) 60000),
          cfg_efficiencyWindowSize := Some (or_default (cfg_efficiencyWindowSize config) 50) \<rparr>))"

section \<open>index.ts\<close>

text \<open>
  The fields of \<^verbatim>\<open>ConsumptionRecord\<close>; its field \<^verbatim>\<open>compensationDebt\<close> is
  \<open>r_compensationDebt\<close> here, the engine having a field of the same name.
\<close>

record 'm ConsumptionRecord =
  timestamp :: rat
  tokens :: rat
  requestId :: string
  metadata :: "'m option"
  estimatedTokens :: "rat option"
  actualTokens :: "rat option"
  r_compensationDebt :: "rat option"

record RateLimitCheckResult =
  allowed :: bool
  reason :: "limit_reason option"
  availableIn :: "int option"
  availableTokens_rpm :: rat
  availableTokens_tpm :: rat

text \<open>
  What the engine writes to its logger, by the message's template and the values put in:
  \<^verbatim>\<open>Failed to consume additional ${n} tokens for request ${id}\<close>,
  \<^verbatim>\<open>Adding ${n} tokens to compensation debt. Total debt: ${d}\<close> and
  \<^verbatim>\<open>Removed ${n} old consumption records to stay within memory limit\<close>.
\<close>

datatype log_entry =
    Warn_FailedToConsume rat string
  | Info_AddingToDebt rat rat
  | Warn_RemovedRecords rat

text \<open>
  The fields of the class \<^verbatim>\<open>LLMThrottle\<close>, without the clock, the lock and the storage
  object; \<open>logger\<close> is the list of the entries written so far.
\<close>

record 'm LLMThrottle =
  rpmBucket :: TokenBucket
  tpmBucket :: TokenBucket
  consumptionHistory :: "'m ConsumptionRecord list"
  logger :: "log_entry list"
  compensationDebt :: rat
  historyRetentionMs :: rat
  maxHistoryRecords :: rat
  efficiencyWindowSize :: nat
  adjustmentFailureStrategy :: AdjustmentFailureStrategy
  storageEnabled :: bool

definition new_LLMThrottle :: "LLMThrottleConfig \<Rightarrow> rat \<Rightarrow> error + 'm LLMThrottle" where
  "new_LLMThrottle config now =
     (case validateAndNormalizeConfig config of
        Inl e \<Rightarrow> Inl e
      | Inr validatedConfig \<Rightarrow>
         (case new_TokenBucket
                 \<lparr> c_capacity = or_default (cfg_burstRPM validatedConfig) (cfg_rpm validatedConfig),
                   c_refillRate = cfg_rpm validatedConfig / 60,
                   c_initialTokens =
                     Some (or_default (cfg_burstRPM validatedConfig) (cfg_rpm validatedConfig)) \<rparr>
                 (cfg_storage config) now of
            Inl e \<Rightarrow> Inl e
          | Inr rb \<Rightarrow>
             (case new_TokenBucket
                     \<lparr> c_capacity =
                         or_default (cfg_burstTPM validatedConfig) (cfg_tpm validatedConfig),
                       c_refillRate = cfg_tpm validatedConfig / 60,
                       c_initialTokens =
                         Some (or_default (cfg_burstTPM validatedConfig)
                                 (cfg_tpm validatedConfig)) \<rparr>
                     (cfg_storage config) now of
                Inl e \<Rightarrow> Inl e
              | Inr tb \<Rightarrow>
                 Inr \<lparr> rpmBucket = rb, tpmBucket = tb, consumptionHistory = [], logger = [],
                       compensationDebt = 0,
                       historyRetentionMs =
                         or_default (cfg_historyRetentionMs validatedConfig) 60000,
                       maxHistoryRecords =
                         or_default (cfg_maxHistoryRecords validatedConfig) 10000,
                       efficiencyWindowSize =
                         or_default (cfg_efficiencyWindowSize validatedConfig) 50,
                       adjustmentFailureStrategy =
                         (case cfg_adjustmentFailureStrategy validatedConfig of
                            None \<Rightarrow> warn | Some s \<Rightarrow> s),
                       storageEnabled = cfg_storage config \<rparr>)))"

definition canProcess ::
  "'m LLMThrottle \<Rightarrow> rat \<Rightarrow> rat \<Rightarrow> (error + RateLimitCheckResult) \<times> 'm LLMThrottle" where
  "canProcess t now est =
     (if est < 0 then (Inl (Error ''Estimated tokens cannot be negative''), t)
      else
        case hasTokens (rpmBucket t) now 1 of (rpmHas, rb1) \<Rightarrow>
        if \<not> rpmHas then
          (case timeUntilNextToken rb1 now of (wait, rb2) \<Rightarrow>
           case available rb2 now of (rpmAvailable, rb3) \<Rightarrow>
           case available (tpmBucket t) now of (tpmAvailable, tb1) \<Rightarrow>
             (Inr \<lparr> allowed = False, reason = Some rpm_limit, availableIn = Some wait,
                    availableTokens_rpm = rpmAvailable, availableTokens_tpm = tpmAvailable \<rparr>,
              t \<lparr> rpmBucket := rb3, tpmBucket := tb1 \<rparr>))
        else
          case hasTokens (tpmBucket t) now est of (tpmHas, tb1) \<Rightarrow>
          if \<not> tpmHas then
            (case timeUntilTokens tb1 now est of (wait, tb2) \<Rightarrow>
             case available rb1 now of (rpmAvailable, rb2) \<Rightarrow>
             case available tb2 now of (tpmAvailable, tb3) \<Rightarrow>
               (Inr \<lparr> allowed = False, reason = Some tpm_limit, availableIn = Some wait,
                      availableTokens_rpm = rpmAvailable, availableTokens_tpm = tpmAvailable \<rparr>,
                t \<lparr> rpmBucket := rb2, tpmBucket := tb3 \<rparr>))
          else
            (case available rb1 now of (rpmAvailable, rb2) \<Rightarrow>
             case available tb1 now of (tpmAvailable, tb2) \<Rightarrow>
               (Inr \<lparr> allowed = True, reason = None, availableIn = None,
                      availableTokens_rpm = rpmAvailable, availableTokens_tpm = tpmAvailable \<rparr>,
                t \<lparr> rpmBucket := rb2, tpmBucket := tb2 \<rparr>)))"

text \<open>
  \<^verbatim>\<open>splice(0, deleteCount)\<close> on a number: the count is truncated to a whole number, a
  count that is not positive removes nothing, and a count beyond the length removes all.
\<close>

definition splice_front :: "rat \<Rightarrow> 'a list \<Rightarrow> 'a list" where
  "splice_front deleteCount xs = drop (nat \<lfloor>deleteCount\<rfloor>) xs"

definition cleanupHistory :: "'m LLMThrottle \<Rightarrow> rat \<Rightarrow> 'm LLMThrottle" where
  "cleanupHistory t now =
     (let cutoff = now - historyRetentionMs t;
          t1 = t \<lparr> consumptionHistory :=
                     filter (\<lambda>item. timestamp item > cutoff) (consumptionHistory t) \<rparr>
      in if rat_of_nat (length (consumptionHistory t1)) > maxHistoryRecords t1 then
           let excess = rat_of_nat (length (consumptionHistory t1)) - maxHistoryRecords t1;
               t2 = t1 \<lparr> consumptionHistory := splice_front excess (consumptionHistory t1) \<rparr>
           in if excess > 10 then t2 \<lparr> logger := logger t2 @ [Warn_RemovedRecords excess] \<rparr>
              else t2
         else t1)"

text \<open>
  The white space that \<^verbatim>\<open>String.prototype.trim\<close> removes, among the characters below
  256: tab, line feed, vertical tab, form feed, carriage return, space, no-break space.
\<close>

definition isWhiteSpace :: "char \<Rightarrow> bool" where
  "isWhiteSpace c \<longleftrightarrow> of_char c \<in> {9, 10, 11, 12, 13, 32, 160 :: nat}"

definition trim :: "string \<Rightarrow> string" where
  "trim s = rev (dropWhile isWhiteSpace (rev (dropWhile isWhiteSpace s)))"

definition consume ::
  "'m LLMThrottle \<Rightarrow> rat \<Rightarrow> string \<Rightarrow> rat \<Rightarrow> 'm option \<Rightarrow> (error + bool) \<times> 'm LLMThrottle" where
  "consume t now reqId est md =
     (if reqId = [] \<or> trim reqId = [] then (Inl (Error ''Request ID cannot be empty''), t)
      else
        let totalTokensNeeded = est + compensationDebt t in
        case canProcess t now totalTokensNeeded of
          (Inl e, t1) \<Rightarrow> (Inl e, t1)
        | (Inr check, t1) \<Rightarrow>
            if \<not> allowed check then (Inr False, t1)
            else
              (case bucket_consume (rpmBucket t1) now 1 of
                 (Inl e, rb) \<Rightarrow> (Inl e, t1 \<lparr> rpmBucket := rb \<rparr>)
               | (Inr _, rb) \<Rightarrow>
                  (case bucket_consume (tpmBucket t1) now totalTokensNeeded of
                     (Inl e, tb) \<Rightarrow> (Inl e, t1 \<lparr> rpmBucket := rb, tpmBucket := tb \<rparr>)
                   | (Inr _, tb) \<Rightarrow>
                       let t2 = t1 \<lparr> rpmBucket := rb, tpmBucket := tb \<rparr>;
                           appliedCompensation = compensationDebt t2;
                           t3 = t2 \<lparr> compensationDebt := 0 \<rparr>;
                           record = \<lparr> timestamp = now, tokens = est, requestId = reqId,
                                      metadata = md, estimatedTokens = Some est,
                                      actualTokens = None,
                                      r_compensationDebt = Some appliedCompensation \<rparr>;
                           t4 = t3 \<lparr> consumptionHistory := consumptionHistory t3 @ [record] \<rparr>
                       in (Inr True, cleanupHistory t4 now))))"

definition handleAdjustmentFailureSync ::
  "'m LLMThrottle \<Rightarrow> rat \<Rightarrow> string \<Rightarrow> rat \<Rightarrow> (error + unit) \<times> 'm LLMThrottle" where
  "handleAdjustmentFailureSync t now reqId additionalTokens =
     (case adjustmentFailureStrategy t of
        strict \<Rightarrow>
          (case timeUntilTokens (tpmBucket t) now additionalTokens of (wait, tb) \<Rightarrow>
             (Inl (RateLimitError tpm_limit wait), t \<lparr> tpmBucket := tb \<rparr>))
      | warn \<Rightarrow>
          (Inr (), t \<lparr> logger := logger t @ [Warn_FailedToConsume additionalTokens reqId] \<rparr>)
      | compensate \<Rightarrow>
          (let t1 = t \<lparr> compensationDebt := compensationDebt t + additionalTokens \<rparr> in
           (Inr (), t1 \<lparr> logger := logger t1
                          @ [Info_AddingToDebt additionalTokens (compensationDebt t1)] \<rparr>)))"

text \<open>
  \<^verbatim>\<open>find\<close> returns the first record of the array with the request id, and the two
  assignments at the end of \<^verbatim>\<open>adjustConsumption\<close> change that object, which is the first
  element of the array that satisfies the test.
\<close>

fun update_first :: "('a \<Rightarrow> bool) \<Rightarrow> ('a \<Rightarrow> 'a) \<Rightarrow> 'a list \<Rightarrow> 'a list" where
  "update_first P f [] = []"
| "update_first P f (x # xs) = (if P x then f x # xs else x # update_first P f xs)"

definition set_actual :: "'m LLMThrottle \<Rightarrow> string \<Rightarrow> rat \<Rightarrow> 'm LLMThrottle" where
  "set_actual t reqId actual =
     t \<lparr> consumptionHistory :=
           update_first (\<lambda>item. requestId item = reqId)
             (\<lambda>record. record \<lparr> tokens := actual, actualTokens := Some actual \<rparr>)
             (consumptionHistory t) \<rparr>"

definition adjustConsumption ::
  "'m LLMThrottle \<Rightarrow> rat \<Rightarrow> string \<Rightarrow> rat \<Rightarrow> (error + unit) \<times> 'm LLMThrottle" where
  "adjustConsumption t now reqId actual =
     (if actual < 0 then (Inl (Error ''Actual tokens cannot be negative''), t)
      else
        case find (\<lambda>item. requestId item = reqId) (consumptionHistory t) of
          None \<Rightarrow>
            (Inl (Error (''Request ID '' @ [CHR 0x27] @ reqId @ [CHR 0x27]
                          @ '' not found in consumption history'')), t)
        | Some record \<Rightarrow>
            let difference = actual - tokens record in
            if difference > 0 then
              (case bucket_consume (tpmBucket t) now difference of
                 (Inl e, tb) \<Rightarrow> (Inl e, t \<lparr> tpmBucket := tb \<rparr>)
               | (Inr consumed, tb) \<Rightarrow>
                   if \<not> consumed then
                     (case handleAdjustmentFailureSync (t \<lparr> tpmBucket := tb \<rparr>) now reqId
                             difference of
                        (Inl e, t1) \<Rightarrow> (Inl e, t1)
                      | (Inr _, t1) \<Rightarrow> (Inr (), set_actual t1 reqId actual))
                   else (Inr (), set_actual (t \<lparr> tpmBucket := tb \<rparr>) reqId actual))
            else if difference < 0 then
              (case refund (tpmBucket t) now (- difference) of
                 (Inl e, tb) \<Rightarrow> (Inl e, t \<lparr> tpmBucket := tb \<rparr>)
               | (Inr _, tb) \<Rightarrow> (Inr (), set_actual (t \<lparr> tpmBucket := tb \<rparr>) reqId actual))
            else (Inr (), set_actual t reqId actual))"

subsection \<open>Metrics\<close>

record DimensionMetrics =
  m_used :: rat
  m_available :: rat
  m_limit :: rat
  m_percentage :: rat

record HistoryStatistics =
  h_count :: nat
  h_averageTokensPerRequest :: rat
  h_totalTokens :: rat
  h_estimationAccuracy :: "rat option"

record MemoryMetrics =
  mm_historyRecords :: nat
  mm_estimatedMemoryUsage :: nat
  mm_maxHistoryRecords :: rat

record RateLimitMetrics =
  metrics_rpm :: DimensionMetrics
  metrics_tpm :: DimensionMetrics
  efficiency :: rat
  metrics_consumptionHistory :: HistoryStatistics
  metrics_memory :: MemoryMetrics
  totalDebt :: rat
  pendingCompensation :: rat

text \<open>
  A quotient whose divisor is zero is not a finite number in JavaScript; \<open>None\<close> stands
  for such a result.
\<close>

definition js_div :: "rat \<Rightarrow> rat \<Rightarrow> rat option" where
  "js_div a b = (if b = 0 then None else Some (a / b))"

text \<open>
  The filter that \<^verbatim>\<open>getHistoryStatistics\<close> and \<^verbatim>\<open>calculateEfficiency\<close> both apply: the
  records with \<^verbatim>\<open>estimatedTokens\<close> and \<^verbatim>\<open>actualTokens\<close> defined.
\<close>

definition recordsWithActual_of :: "'m ConsumptionRecord list \<Rightarrow> 'm ConsumptionRecord list" where
  "recordsWithActual_of rs =
     filter (\<lambda>record. estimatedTokens record \<noteq> None \<and> actualTokens record \<noteq> None) rs"

definition getHistoryStatistics :: "'m LLMThrottle \<Rightarrow> HistoryStatistics" where
  "getHistoryStatistics t =
     (if length (consumptionHistory t) = 0
      then \<lparr> h_count = 0, h_averageTokensPerRequest = 0, h_totalTokens = 0,
             h_estimationAccuracy = Some 1 \<rparr>
      else
        let totalTokens = foldl (\<lambda>sum record. sum + tokens record) 0 (consumptionHistory t);
            recordsWithActual = recordsWithActual_of (consumptionHistory t);
            estimationAccuracy =
              (if length recordsWithActual > 0 then
                 (case foldl (\<lambda>sum record.
                          let estimated = the (estimatedTokens record);
                              actual = the (actualTokens record)
                          in if estimated = 0 then map_option (\<lambda>s. s + 1) sum
                             else (case (sum, js_div (min estimated actual) (max estimated actual)) of
                                     (Some s, Some q) \<Rightarrow> Some (s + q)
                                   | _ \<Rightarrow> None))
                        (Some 0) recordsWithActual of
                    Some accuracySum \<Rightarrow> Some (accuracySum / of_nat (length recordsWithActual))
                  | None \<Rightarrow> None)
               else Some 1)
        in \<lparr> h_count = length (consumptionHistory t),
             h_averageTokensPerRequest = totalTokens / of_nat (length (consumptionHistory t)),
             h_totalTokens = totalTokens,
             h_estimationAccuracy = estimationAccuracy \<rparr>)"

definition getMemoryMetrics :: "'m LLMThrottle \<Rightarrow> MemoryMetrics" where
  "getMemoryMetrics t =
     (let recordSize = 200 in
      \<lparr> mm_historyRecords = length (consumptionHistory t),
        mm_estimatedMemoryUsage = length (consumptionHistory t) * recordSize,
        mm_maxHistoryRecords = maxHistoryRecords t \<rparr>)"

text \<open>\<^verbatim>\<open>slice(-n)\<close>: the last \<open>n\<close> elements, and the whole array when \<open>n\<close> is zero.\<close>

definition slice_from_end :: "nat \<Rightarrow> 'a list \<Rightarrow> 'a list" where
  "slice_from_end n xs = (if n = 0 then xs else drop (length xs - n) xs)"

text \<open>What one pass of the loop of \<^verbatim>\<open>calculateEfficiency\<close> adds to \<^verbatim>\<open>totalAccuracy\<close>.\<close>

definition record_accuracy :: "'m ConsumptionRecord \<Rightarrow> rat" where
  "record_accuracy record =
     (let estimated = the (estimatedTokens record);
          actual = the (actualTokens record)
      in if estimated = 0 \<and> actual = 0 then 1
         else if estimated = 0 \<or> actual = 0 then 0
         else min estimated actual / max estimated actual)"

definition calculateEfficiency :: "'m LLMThrottle \<Rightarrow> rat" where
  "calculateEfficiency t =
     (let recentHistory = slice_from_end (efficiencyWindowSize t) (consumptionHistory t) in
      if length recentHistory = 0 then 1
      else
        let recordsWithActual = recordsWithActual_of recentHistory in
        if length recordsWithActual = 0 then 85 / 100
        else
          let totalAccuracy =
                foldl (\<lambda>totalAccuracy record. totalAccuracy + record_accuracy record) 0
                  recordsWithActual
          in totalAccuracy / of_nat (length recordsWithActual))"

text \<open>
  The part of \<^verbatim>\<open>getMetrics\<close> for one bucket: \<^verbatim>\<open>used\<close> is computed from a first read of
  \<^verbatim>\<open>available\<close>, and the returned object reads \<^verbatim>\<open>available\<close> again. The capacity of a
  constructed bucket is positive, so the percentage divides by a positive number.
\<close>

definition dimensionMetrics :: "TokenBucket \<Rightarrow> rat \<Rightarrow> DimensionMetrics \<times> TokenBucket" where
  "dimensionMetrics b now =
     (case available b now of (a1, b1) \<Rightarrow>
      let used = capacity b1 - a1 in
      case available b1 now of (a2, b2) \<Rightarrow>
        (\<lparr> m_used = used, m_available = a2, m_limit = capacity b2,
           m_percentage = used / capacity b2 * 100 \<rparr>, b2))"

definition getMetrics :: "'m LLMThrottle \<Rightarrow> rat \<Rightarrow> RateLimitMetrics \<times> 'm LLMThrottle" where
  "getMetrics t now =
     (let t1 = cleanupHistory t now in
      case dimensionMetrics (rpmBucket t1) now of (rpmMetrics, rb) \<Rightarrow>
      case dimensionMetrics (tpmBucket t1) now of (tpmMetrics, tb) \<Rightarrow>
      let t2 = t1 \<lparr> rpmBucket := rb, tpmBucket := tb \<rparr> in
        (\<lparr> metrics_rpm = rpmMetrics, metrics_tpm = tpmMetrics,
           efficiency = calculateEfficiency t2,
           metrics_consumptionHistory = getHistoryStatistics t2,
           metrics_memory = getMemoryMetrics t2,
           totalDebt = compensationDebt t2,
           pendingCompensation = compensationDebt t2 \<rparr>, t2))"

definition getConsumptionHistory ::
  "'m LLMThrottle \<Rightarrow> rat \<Rightarrow> 'm ConsumptionRecord list \<times> 'm LLMThrottle" where
  "getConsumptionHistory t now =
     (let t1 = cleanupHistory t now in (consumptionHistory t1, t1))"

definition reset :: "'m LLMThrottle \<Rightarrow> rat \<Rightarrow> 'm LLMThrottle" where
  "reset t now =
     t \<lparr> rpmBucket := bucket_reset (rpmBucket t) now,
         tpmBucket := bucket_reset (tpmBucket t) now,
         consumptionHistory := [],
         compensationDebt := 0 \<rparr>"

definition setHistoryRetention :: "'m LLMThrottle \<Rightarrow> rat \<Rightarrow> (error + unit) \<times> 'm LLMThrottle" where
  "setHistoryRetention t ms =
     (if ms \<le> 0 then (Inl (Error ''History retention must be positive''), t)
      else (Inr (), t \<lparr> historyRetentionMs := ms \<rparr>))"

definition setMaxHistoryRecords ::
  "'m LLMThrottle \<Rightarrow> rat \<Rightarrow> rat \<Rightarrow> (error + unit) \<times> 'm LLMThrottle" where
  "setMaxHistoryRecords t now count =
     (if count \<le> 0 then (Inl (Error ''Max history records must be positive''), t)
      else (Inr (), cleanupHistory (t \<lparr> maxHistoryRecords := count \<rparr>) now))"

definition validateState :: "'m LLMThrottle \<Rightarrow> rat \<Rightarrow> bool \<times> 'm LLMThrottle" where
  "validateState t now =
     (case validateConsistency (rpmBucket t) now of (rpmOk, rb) \<Rightarrow>
      if \<not> rpmOk then (False, t \<lparr> rpmBucket := rb \<rparr>)
      else
        case validateConsistency (tpmBucket t) now of (tpmOk, tb) \<Rightarrow>
        let t1 = t \<lparr> rpmBucket := rb, tpmBucket := tb \<rparr> in
        if \<not> tpmOk then (False, t1)
        else if compensationDebt t1 < 0 then (False, t1)
        else if rat_of_nat (length (consumptionHistory t1))
                  > maxHistoryRecords t1 * (11 / 10) then (False, t1)
        else
          let oldestAllowed = now - historyRetentionMs t1 * 2 in
          (list_all (\<lambda>record. \<not> (timestamp record < oldestAllowed \<or> timestamp record > now + 1000)
                               \<and> \<not> tokens record < 0)
             (consumptionHistory t1), t1))"

section \<open>Example engines\<close>

text \<open>
  Two engines as the constructor returns them when the clock reads 0: one for 60 requests
  and 1000 tokens per minute with every option left out, one for 10 requests and 100
  tokens per minute with the strategy \<^verbatim>\<open>compensate\<close>.
\<close>

definition example_config :: LLMThrottleConfig where
  "example_config =
     \<lparr> cfg_rpm = 60, cfg_tpm = 1000, cfg_burstRPM = None, cfg_burstTPM = None,
       cfg_adjustmentFailureStrategy = None, cfg_maxHistoryRecords = None,
       cfg_historyRetentionMs = None, cfg_efficiencyWindowSize = None, cfg_storage = False \<rparr>"

definition example_throttle :: "unit LLMThrottle" where
  "example_throttle =
     \<lparr> rpmBucket = \<lparr> b_capacity = 60, b_available = 60, b_refillRate = 1, b_lastRefill = 0,
                     b_storage = False \<rparr>,
       tpmBucket = \<lparr> b_capacity = 1000, b_available = 1000, b_refillRate = 50 / 3,
                     b_lastRefill = 0, b_storage = False \<rparr>,
       consumptionHistory = [], logger = [], compensationDebt = 0,
       historyRetentionMs = 60000, maxHistoryRecords = 10000, efficiencyWindowSize = 50,
       adjustmentFailureStrategy = warn, storageEnabled = False \<rparr>"

definition compensate_config :: LLMThrottleConfig where
  "compensate_config =
     \<lparr> cfg_rpm = 10, cfg_tpm = 100, cfg_burstRPM = None, cfg_burstTPM = None,
       cfg_adjustmentFailureStrategy = Some compensate, cfg_maxHistoryRecords = None,
       cfg_historyRetentionMs = None, cfg_efficiencyWindowSize = None, cfg_storage = False \<rparr>"

definition compensate_throttle :: "unit LLMThrottle" where
  "compensate_throttle =
     \<lparr> rpmBucket = \<lparr> b_capacity = 10, b_available = 10, b_refillRate = 1 / 6, b_lastRefill = 0,
                     b_storage = False \<rparr>,
       tpmBucket = \<lparr> b_capacity = 100, b_available = 100, b_refillRate = 5 / 3,
                     b_lastRefill = 0, b_storage = False \<rparr>,
       consumptionHistory = [], logger = [], compensationDebt = 0,
       historyRetentionMs = 60000, maxHistoryRecords = 10000, efficiencyWindowSize = 50,
       adjustmentFailureStrategy = compensate, storageEnabled = False \<rparr>"

text \<open>
  States reached from them: after one \<^verbatim>\<open>consume\<close>, after a second \<^verbatim>\<open>consume\<close> with the
  same request id, after a reconciliation, with both buckets empty, with fifty records and
  room for ten, and with a compensation debt of 50.
\<close>

definition consumed_throttle :: "unit LLMThrottle" where
  "consumed_throttle = snd (consume example_throttle 1000 ''request-1'' 500 None)"

definition twice_throttle :: "unit LLMThrottle" where
  "twice_throttle = snd (consume consumed_throttle 2000 ''request-1'' 200 None)"


definition expired_after_adjust :: "unit LLMThrottle" where
  "expired_after_adjust =
     snd (adjustConsumption (snd (consume example_throttle 0 ''a'' 100 None)) 100000 ''a'' 90)"

definition exhausted_throttle :: "unit LLMThrottle" where
  "exhausted_throttle =
     example_throttle
       \<lparr> rpmBucket := rpmBucket example_throttle \<lparr> b_available := 0 \<rparr>,
         tpmBucket := tpmBucket example_throttle \<lparr> b_available := 0 \<rparr> \<rparr>"

definition bulk_throttle :: "unit LLMThrottle" where
  "bulk_throttle =
     example_throttle
       \<lparr> maxHistoryRecords := 10,
         consumptionHistory :=
           map (\<lambda>i. \<lparr> timestamp = rat_of_nat i, tokens = 10, requestId = ''bulk'',
                       metadata = None, estimatedTokens = Some 10, actualTokens = None,
                       r_compensationDebt = None \<rparr>) [0..<50] \<rparr>"

definition debt_throttle :: "unit LLMThrottle" where
  "debt_throttle =
     snd (adjustConsumption (snd (consume compensate_throttle 0 ''a'' 100 None)) 0 ''a'' 150)"

section \<open>Properties of the bucket\<close>

lemma refill_fields [simp]:
  "b_capacity (refill b now) = b_capacity b"
  "b_refillRate (refill b now) = b_refillRate b"
  "b_storage (refill b now) = b_storage b"
  by (simp_all add: refill_def Let_def)

lemma refill_same_clock [simp]: "refill (refill b now) now = refill b now"
  by (simp add: refill_def Let_def)

lemma refill_available_change [simp]:
  "refill (refill b now \<lparr> b_available := a \<rparr>) now = refill b now \<lparr> b_available := a \<rparr>"
  by (simp add: refill_def Let_def)

lemma refill_inv: "bucket_inv b \<Longrightarrow> bucket_inv (refill b now)"
proof -
  assume inv: "bucket_inv b"
  show ?thesis
  proof (cases "(now - b_lastRefill b) / 1000 \<le> 0")
    case True
    then show ?thesis using inv by (simp add: refill_def)
  next
    case False
    then have "0 \<le> (now - b_lastRefill b) / 1000 * b_refillRate b"
      using inv by (simp add: bucket_inv_def)
    then show ?thesis using inv False
      by (simp add: refill_def Let_def bucket_inv_def)
  qed
qed

lemma persistState_inv: "bucket_inv b \<Longrightarrow> bucket_inv (persistState b now)"
  by (simp add: persistState_def getState_def Let_def refill_inv)

lemma bucket_consume_inv: "bucket_inv b \<Longrightarrow> bucket_inv (snd (bucket_consume b now n))"
proof -
  assume inv: "bucket_inv b"
  have r: "bucket_inv (refill b now)" using inv by (rule refill_inv)
  show ?thesis
  proof (cases "n < 0")
    case True
    then show ?thesis using inv by (simp add: bucket_consume_def)
  next
    case False
    show ?thesis
    proof (cases "b_available (refill b now) \<ge> n")
      case True
      have "bucket_inv (refill b now \<lparr> b_available := b_available (refill b now) - n \<rparr>)"
        using r True False by (simp add: bucket_inv_def)
      then show ?thesis using True False
        by (simp add: bucket_consume_def Let_def persistState_inv)
    next
      case no: False
      then show ?thesis using r False by (simp add: bucket_consume_def Let_def)
    qed
  qed
qed

lemma refund_inv: "bucket_inv b \<Longrightarrow> bucket_inv (snd (refund b now n))"
proof -
  assume inv: "bucket_inv b"
  show ?thesis
  proof (cases "n < 0")
    case True
    then show ?thesis using inv by (simp add: refund_def)
  next
    case False
    have "bucket_inv (b \<lparr> b_available := min (b_capacity b) (b_available b + n) \<rparr>)"
      using inv False by (simp add: bucket_inv_def)
    then show ?thesis using False by (simp add: refund_def persistState_inv)
  qed
qed

lemma bucket_reset_inv: "bucket_inv b \<Longrightarrow> bucket_inv (bucket_reset b now)"
proof -
  assume inv: "bucket_inv b"
  have "bucket_inv (b \<lparr> b_available := b_capacity b, b_lastRefill := now \<rparr>)"
    using inv by (simp add: bucket_inv_def)
  then show ?thesis by (simp add: bucket_reset_def persistState_inv)
qed

lemma restoreState_inv: "bucket_inv b \<Longrightarrow> bucket_inv (snd (restoreState b st))"
  by (simp add: restoreState_def bucket_inv_def)

lemma bucket_step_inv: "bucket_inv b \<Longrightarrow> bucket_inv (bucket_step b c)"
proof (cases c)
  case (Pair now call)
  assume "bucket_inv b"
  then show ?thesis unfolding Pair
    by (cases call)
       (simp_all add: bucket_consume_inv refund_inv bucket_reset_inv restoreState_inv
          available_def Let_def refill_inv)
qed

lemma bucket_run_inv: "bucket_inv b \<Longrightarrow> bucket_inv (bucket_run b calls)"
  unfolding bucket_run_def
  by (induction calls arbitrary: b) (simp_all add: bucket_step_inv)

lemma new_TokenBucket_inv: "new_TokenBucket config storage now = Inr b \<Longrightarrow> bucket_inv b"
  by (auto simp: new_TokenBucket_def validateConfig_def bucket_inv_def
      split: if_splits option.splits)


subsection \<open>The invariant\<close>

text \<open>
  C7. A bucket that the constructor has returned (so its configuration passed
  \<^verbatim>\<open>validateConfig\<close>: capacity and refill rate positive, initial tokens within the
  capacity) keeps \<open>0 \<le> available \<le> capacity\<close> after every sequence of \<^verbatim>\<open>consume\<close>,
  \<^verbatim>\<open>refund\<close>, \<^verbatim>\<open>reset\<close>, \<^verbatim>\<open>restoreState\<close> and reads, at any clock readings, whether
  a call returns or throws. The capacity stays the configured one, and what the getter
  \<^verbatim>\<open>available\<close> reports at any later clock reading is in the same range.
\<close>

theorem bucket_invariant_after_calls:
  "new_TokenBucket config storage t0 = Inr b \<Longrightarrow>
     0 \<le> b_available (bucket_run b calls)
     \<and> b_available (bucket_run b calls) \<le> b_capacity (bucket_run b calls)
     \<and> 0 \<le> fst (available (bucket_run b calls) t)
     \<and> fst (available (bucket_run b calls) t) \<le> capacity (bucket_run b calls)"
proof -
  assume "new_TokenBucket config storage t0 = Inr b"
  then have "bucket_inv b" by (rule new_TokenBucket_inv)
  then have run: "bucket_inv (bucket_run b calls)" by (rule bucket_run_inv)
  then have "bucket_inv (refill (bucket_run b calls) t)" by (rule refill_inv)
  then show ?thesis using run
    by (simp add: bucket_inv_def available_def capacity_def Let_def)
qed

theorem bucket_invariant_after_calls_witness:
  "new_TokenBucket \<lparr> c_capacity = 100, c_refillRate = 10, c_initialTokens = Some 50 \<rparr> False 0
     = Inr \<lparr> b_capacity = 100, b_available = 50, b_refillRate = 10, b_lastRefill = 0,
             b_storage = False \<rparr>
   \<and> bucket_run \<lparr> b_capacity = 100, b_available = 50, b_refillRate = 10, b_lastRefill = 0,
                  b_storage = False \<rparr>
        [(1000, Consume 30), (2000, Refund 500), (2500, Consume 45), (3000, Read)]
     = \<lparr> b_capacity = 100, b_available = 60, b_refillRate = 10, b_lastRefill = 3000,
         b_storage = False \<rparr>
   \<and> (0::rat) \<le> 60 \<and> (60::rat) \<le> 100"
proof -
  have c: "new_TokenBucket \<lparr> c_capacity = 100, c_refillRate = 10, c_initialTokens = Some 50 \<rparr>
             False 0
           = Inr \<lparr> b_capacity = 100, b_available = 50, b_refillRate = 10, b_lastRefill = 0,
                   b_storage = False \<rparr>"
    by (simp add: new_TokenBucket_def validateConfig_def)
  have r: "bucket_run \<lparr> b_capacity = 100, b_available = 50, b_refillRate = 10,
                        b_lastRefill = 0, b_storage = False \<rparr>
             [(1000, Consume 30), (2000, Refund 500), (2500, Consume 45), (3000, Read)]
           = \<lparr> b_capacity = 100, b_available = 60, b_refillRate = 10, b_lastRefill = 3000,
               b_storage = False \<rparr>"
    by (simp add: bucket_run_def bucket_consume_def refund_def available_def refill_def
        persistState_def Let_def)
  show ?thesis
    using bucket_invariant_after_calls [OF c,
        of "[(1000, Consume 30), (2000, Refund 500), (2500, Consume 45), (3000, Read)]" 3000]
    unfolding r using c r by simp
qed

subsection \<open>Refill\<close>

lemma refill_formula:
  assumes "bucket_inv b" "b_lastRefill b \<le> now"
  shows "b_available (refill b now)
         = min (b_capacity b)
             (b_available b + (now - b_lastRefill b) / 1000 * b_refillRate b)"
proof (cases "now = b_lastRefill b")
  case True
  then show ?thesis using assms by (simp add: refill_def bucket_inv_def)
next
  case False
  then have "\<not> (now - b_lastRefill b) / 1000 \<le> 0" using assms(2) by simp
  then show ?thesis by (simp add: refill_def Let_def)
qed

lemma refill_never_decreases:
  assumes "bucket_inv b"
  shows "b_available b \<le> b_available (refill b now)"
proof (cases "(now - b_lastRefill b) / 1000 \<le> 0")
  case True
  then show ?thesis by (simp add: refill_def)
next
  case False
  then have "0 \<le> (now - b_lastRefill b) / 1000 * b_refillRate b"
    using assms by (simp add: bucket_inv_def)
  then show ?thesis using assms False by (simp add: refill_def Let_def bucket_inv_def)
qed

lemma refill_monotone:
  assumes "bucket_inv b" "t1 \<le> t2"
  shows "b_available (refill b t1) \<le> b_available (refill b t2)"
proof (cases "(t1 - b_lastRefill b) / 1000 \<le> 0")
  case True
  then have "refill b t1 = b" by (simp add: refill_def)
  then show ?thesis using refill_never_decreases [OF assms(1), of t2] by simp
next
  case False
  then have p1: "b_lastRefill b < t1" by simp
  then have p2: "\<not> (t2 - b_lastRefill b) / 1000 \<le> 0" using assms(2) by simp
  have "(t1 - b_lastRefill b) / 1000 \<le> (t2 - b_lastRefill b) / 1000"
    using assms(2) by simp
  then have "(t1 - b_lastRefill b) / 1000 * b_refillRate b
             \<le> (t2 - b_lastRefill b) / 1000 * b_refillRate b"
    using assms(1) by (intro mult_right_mono) (simp_all add: bucket_inv_def)
  then show ?thesis using False p2 by (simp add: refill_def Let_def min_le_iff_disj)
qed

text \<open>
  C8. On a bucket satisfying the invariant, \<^verbatim>\<open>refill\<close> at a clock reading not before the
  last refill leaves \<open>min capacity (available + elapsedSeconds * refillRate)\<close>; the
  result is monotone in the clock reading, never below the previous \<open>available\<close>,
  never above the capacity, and a second refill at the same clock reading changes nothing.
\<close>

theorem refill_lazy_properties:
  "bucket_inv b \<Longrightarrow>
     (b_lastRefill b \<le> now \<longrightarrow>
        b_available (refill b now)
        = min (b_capacity b)
            (b_available b + (now - b_lastRefill b) / 1000 * b_refillRate b))
     \<and> (\<forall>t1 t2. t1 \<le> t2 \<longrightarrow> b_available (refill b t1) \<le> b_available (refill b t2))
     \<and> b_available b \<le> b_available (refill b now)
     \<and> b_available (refill b now) \<le> b_capacity b
     \<and> refill (refill b now) now = refill b now"
proof -
  assume inv: "bucket_inv b"
  have "b_available (refill b now) \<le> b_capacity b"
    using refill_inv [OF inv, of now] by (simp add: bucket_inv_def)
  then show ?thesis
    using inv refill_formula refill_monotone refill_never_decreases by simp
qed

theorem refill_lazy_properties_witness:
  "bucket_inv \<lparr> b_capacity = 100, b_available = 50, b_refillRate = 10, b_lastRefill = 0,
                b_storage = False \<rparr>
   \<and> b_available (refill \<lparr> b_capacity = 100, b_available = 50, b_refillRate = 10,
                           b_lastRefill = 0, b_storage = False \<rparr> 2000) = 70
   \<and> b_available (refill \<lparr> b_capacity = 100, b_available = 50, b_refillRate = 10,
                           b_lastRefill = 0, b_storage = False \<rparr> 10000) = 100"
proof -
  have inv: "bucket_inv \<lparr> b_capacity = 100, b_available = 50, b_refillRate = 10,
                          b_lastRefill = 0, b_storage = False \<rparr>"
    by (simp add: bucket_inv_def)
  show ?thesis
    using inv refill_lazy_properties [OF inv, of 2000] refill_lazy_properties [OF inv, of 10000]
    by simp
qed

subsection \<open>Export and import of the state\<close>

text \<open>
  C9. The state that \<^verbatim>\<open>getState\<close> exports from a bucket satisfying the invariant is
  accepted by \<^verbatim>\<open>restoreState\<close> on any bucket of the same capacity, which then holds
  the exported \<open>available\<close> and \<open>lastRefill\<close>. \<^verbatim>\<open>restoreState\<close> throws an
  \<^verbatim>\<open>Invalid state\<close> error and leaves the bucket as it was whenever the snapshot's
  \<open>available\<close> is negative, above the snapshot's or the bucket's capacity, or the
  snapshot's capacity is not the bucket's.
\<close>

theorem state_round_trip:
  "(bucket_inv src \<and> b_capacity dst = b_capacity src \<longrightarrow>
      restoreState dst (fst (getState src now))
        = (Inr (), dst \<lparr> b_available := b_available (snd (getState src now)),
                          b_lastRefill := b_lastRefill (snd (getState src now)) \<rparr>)
      \<and> b_available (snd (restoreState dst (fst (getState src now))))
          = s_available (fst (getState src now))
      \<and> b_lastRefill (snd (restoreState dst (fst (getState src now))))
          = s_lastRefill (fst (getState src now)))
   \<and> (s_available st < 0 \<or> s_available st > s_capacity st \<or> s_available st > b_capacity b
        \<or> s_capacity st \<noteq> b_capacity b \<longrightarrow>
      restoreState b st = (Inl (Error ''Invalid state: available tokens out of range''), b)
      \<or> restoreState b st = (Inl (Error ''Invalid state: capacity mismatch''), b))"
proof -
  have "bucket_inv (refill src now)" if "bucket_inv src"
    using that by (rule refill_inv)
  then have ok: "restoreState dst (fst (getState src now))
        = (Inr (), dst \<lparr> b_available := b_available (snd (getState src now)),
                          b_lastRefill := b_lastRefill (snd (getState src now)) \<rparr>)"
    if "bucket_inv src" "b_capacity dst = b_capacity src"
    using that by (simp add: restoreState_def getState_def Let_def bucket_inv_def)
  have fields: "b_available (snd (getState src now)) = s_available (fst (getState src now))"
    "b_lastRefill (snd (getState src now)) = s_lastRefill (fst (getState src now))"
    by (simp_all add: getState_def Let_def)
  have bad: "restoreState b st = (Inl (Error ''Invalid state: available tokens out of range''), b)
      \<or> restoreState b st = (Inl (Error ''Invalid state: capacity mismatch''), b)"
    if "s_available st < 0 \<or> s_available st > s_capacity st \<or> s_available st > b_capacity b
        \<or> s_capacity st \<noteq> b_capacity b"
    using that by (auto simp: restoreState_def)
  show ?thesis using ok fields bad by simp
qed

theorem state_round_trip_witness:
  "restoreState \<lparr> b_capacity = 100, b_available = 5, b_refillRate = 1, b_lastRefill = 7,
                  b_storage = False \<rparr>
     (fst (getState \<lparr> b_capacity = 100, b_available = 50, b_refillRate = 10,
                      b_lastRefill = 0, b_storage = False \<rparr> 2000))
   = (Inr (), \<lparr> b_capacity = 100, b_available = 70, b_refillRate = 1, b_lastRefill = 2000,
               b_storage = False \<rparr>)
   \<and> restoreState \<lparr> b_capacity = 100, b_available = 5, b_refillRate = 1, b_lastRefill = 7,
                    b_storage = False \<rparr>
       \<lparr> s_available = 70, s_capacity = 200, s_lastRefill = 2000 \<rparr>
     = (Inl (Error ''Invalid state: capacity mismatch''),
        \<lparr> b_capacity = 100, b_available = 5, b_refillRate = 1, b_lastRefill = 7,
          b_storage = False \<rparr>)"
proof -
  have inv: "bucket_inv \<lparr> b_capacity = 100, b_available = 50, b_refillRate = 10,
                          b_lastRefill = 0, b_storage = False \<rparr>"
    by (simp add: bucket_inv_def)
  show ?thesis
    using inv
      state_round_trip [of "\<lparr> b_capacity = 100, b_available = 50, b_refillRate = 10,
                               b_lastRefill = 0, b_storage = False \<rparr>"
        "\<lparr> b_capacity = 100, b_available = 5, b_refillRate = 1, b_lastRefill = 7,
           b_storage = False \<rparr>" 2000
        "\<lparr> s_available = 70, s_capacity = 200, s_lastRefill = 2000 \<rparr>"
        "\<lparr> b_capacity = 100, b_available = 5, b_refillRate = 1, b_lastRefill = 7,
           b_storage = False \<rparr>"]
    by (simp add: getState_def refill_def Let_def restoreState_def)
qed

section \<open>Properties of the engine\<close>

subsection \<open>Evaluation and auxiliary facts\<close>

lemmas eval_defs = consume_def canProcess_def
      hasTokens_def available_def refill_def bucket_consume_def persistState_def
      cleanupHistory_def splice_front_def adjustConsumption_def refund_def set_actual_def
      trim_def
      isWhiteSpace_def Let_def handleAdjustmentFailureSync_def timeUntilTokens_def
      timeUntilNextToken_def validateState_def validateConsistency_def

lemma example_throttle_constructed:
  "new_LLMThrottle example_config 0 = Inr example_throttle"
  "new_LLMThrottle compensate_config 0 = Inr compensate_throttle"
  by (simp_all add: new_LLMThrottle_def validateAndNormalizeConfig_def
      validateConfig_errors_def new_TokenBucket_def validateConfig_def or_default_def
      example_config_def example_throttle_def compensate_config_def compensate_throttle_def)

lemma consumed_throttle_eq:
  "consumed_throttle =
     \<lparr> rpmBucket = \<lparr> b_capacity = 60, b_available = 59, b_refillRate = 1,
                     b_lastRefill = 1000, b_storage = False \<rparr>,
       tpmBucket = \<lparr> b_capacity = 1000, b_available = 500, b_refillRate = 50 / 3,
                     b_lastRefill = 1000, b_storage = False \<rparr>,
       consumptionHistory =
         [\<lparr> timestamp = 1000, tokens = 500, requestId = ''request-1'', metadata = None,
            estimatedTokens = Some 500, actualTokens = None, r_compensationDebt = Some 0 \<rparr>],
       logger = [], compensationDebt = 0, historyRetentionMs = 60000,
       maxHistoryRecords = 10000, efficiencyWindowSize = 50,
       adjustmentFailureStrategy = warn, storageEnabled = False \<rparr>"
  by (simp add: consumed_throttle_def example_throttle_def eval_defs)

lemma twice_throttle_eq:
  "twice_throttle =
     \<lparr> rpmBucket = \<lparr> b_capacity = 60, b_available = 59, b_refillRate = 1,
                     b_lastRefill = 2000, b_storage = False \<rparr>,
       tpmBucket = \<lparr> b_capacity = 1000, b_available = 950 / 3, b_refillRate = 50 / 3,
                     b_lastRefill = 2000, b_storage = False \<rparr>,
       consumptionHistory =
         [\<lparr> timestamp = 1000, tokens = 500, requestId = ''request-1'', metadata = None,
            estimatedTokens = Some 500, actualTokens = None, r_compensationDebt = Some 0 \<rparr>,
          \<lparr> timestamp = 2000, tokens = 200, requestId = ''request-1'', metadata = None,
            estimatedTokens = Some 200, actualTokens = None, r_compensationDebt = Some 0 \<rparr>],
       logger = [], compensationDebt = 0, historyRetentionMs = 60000,
       maxHistoryRecords = 10000, efficiencyWindowSize = 50,
       adjustmentFailureStrategy = warn, storageEnabled = False \<rparr>"
  by (simp add: twice_throttle_def consumed_throttle_eq eval_defs)

lemma debt_throttle_eq: "debt_throttle = 
    \<lparr> rpmBucket = \<lparr> b_capacity = 10, b_available = 9, b_refillRate = 1 / 6, b_lastRefill = 0,
                     b_storage = False \<rparr>,
       tpmBucket = \<lparr> b_capacity = 100, b_available = 0, b_refillRate = 5 / 3,
                     b_lastRefill = 0, b_storage = False \<rparr>,
       consumptionHistory = [\<lparr>timestamp = 0, tokens = 150, requestId = ''a'', metadata = None,
          estimatedTokens = Some 100, actualTokens = Some 150,
          r_compensationDebt = Some 0\<rparr>], logger = [Info_AddingToDebt 50 50], compensationDebt = 50,
       historyRetentionMs = 60000, maxHistoryRecords = 10000, efficiencyWindowSize = 50,
       adjustmentFailureStrategy = compensate, storageEnabled = False \<rparr>"
  by (simp add: debt_throttle_def compensate_throttle_def eval_defs)

lemma canProcess_eq:
  "0 \<le> est \<Longrightarrow>
   canProcess t now est =
     (Inr (if b_available (refill (rpmBucket t) now) < 1 then
             \<lparr> allowed = False, reason = Some rpm_limit,
               availableIn = Some (fst (timeUntilNextToken (rpmBucket t) now)),
               availableTokens_rpm = b_available (refill (rpmBucket t) now),
               availableTokens_tpm = b_available (refill (tpmBucket t) now) \<rparr>
           else if b_available (refill (tpmBucket t) now) < est then
             \<lparr> allowed = False, reason = Some tpm_limit,
               availableIn = Some (fst (timeUntilTokens (tpmBucket t) now est)),
               availableTokens_rpm = b_available (refill (rpmBucket t) now),
               availableTokens_tpm = b_available (refill (tpmBucket t) now) \<rparr>
           else
             \<lparr> allowed = True, reason = None, availableIn = None,
               availableTokens_rpm = b_available (refill (rpmBucket t) now),
               availableTokens_tpm = b_available (refill (tpmBucket t) now) \<rparr>),
      t \<lparr> rpmBucket := refill (rpmBucket t) now, tpmBucket := refill (tpmBucket t) now \<rparr>)"
  by (simp add: canProcess_def hasTokens_def timeUntilNextToken_def
      timeUntilTokens_def available_def Let_def not_le not_less)

lemma persistState_refilled [simp]:
  "persistState (refill b now \<lparr> b_available := a \<rparr>) now = refill b now \<lparr> b_available := a \<rparr>"
  by (simp add: persistState_def getState_def Let_def)

lemma bucket_consume_refilled:
  "0 \<le> n \<Longrightarrow> n \<le> b_available (refill b now) \<Longrightarrow>
   bucket_consume (refill b now) now n
     = (Inr True, refill b now \<lparr> b_available := b_available (refill b now) - n \<rparr>)"
  by (simp add: bucket_consume_def Let_def)

lemma consume_eq:
  assumes "\<not> (reqId = [] \<or> trim reqId = [])"
  shows "consume t now reqId est md =
     (let needed = est + compensationDebt t;
          rb = refill (rpmBucket t) now;
          tb = refill (tpmBucket t) now
      in if needed < 0 then (Inl (Error ''Estimated tokens cannot be negative''), t)
         else if b_available rb < 1 \<or> b_available tb < needed
           then (Inr False, t \<lparr> rpmBucket := rb, tpmBucket := tb \<rparr>)
         else (Inr True,
               cleanupHistory
                 (t \<lparr> rpmBucket := rb \<lparr> b_available := b_available rb - 1 \<rparr>,
                      tpmBucket := tb \<lparr> b_available := b_available tb - needed \<rparr>,
                      compensationDebt := 0,
                      consumptionHistory := consumptionHistory t
                        @ [\<lparr> timestamp = now, tokens = est, requestId = reqId, metadata = md,
                             estimatedTokens = Some est, actualTokens = None,
                             r_compensationDebt = Some (compensationDebt t) \<rparr>] \<rparr>) now))"
proof (cases "est + compensationDebt t < 0")
  case True
  then show ?thesis using assms by (simp add: consume_def canProcess_def Let_def)
next
  case False
  then have nn: "0 \<le> est + compensationDebt t" by simp
  show ?thesis
  proof (cases "b_available (refill (rpmBucket t) now) < 1
                \<or> b_available (refill (tpmBucket t) now) < est + compensationDebt t")
    case True
    then show ?thesis using assms False
      by (auto simp add: consume_def canProcess_eq [OF nn] Let_def)
  next
    case ok: False
    then show ?thesis using assms False nn
      by (simp add: consume_def canProcess_eq [OF nn] Let_def bucket_consume_refilled not_less)
  qed
qed

lemma cleanupHistory_fields [simp]:
  "rpmBucket (cleanupHistory t now) = rpmBucket t"
  "tpmBucket (cleanupHistory t now) = tpmBucket t"
  "compensationDebt (cleanupHistory t now) = compensationDebt t"
  "historyRetentionMs (cleanupHistory t now) = historyRetentionMs t"
  "maxHistoryRecords (cleanupHistory t now) = maxHistoryRecords t"
  "efficiencyWindowSize (cleanupHistory t now) = efficiencyWindowSize t"
  "adjustmentFailureStrategy (cleanupHistory t now) = adjustmentFailureStrategy t"
  "storageEnabled (cleanupHistory t now) = storageEnabled t"
  by (simp_all add: cleanupHistory_def Let_def)

lemma cleanupHistory_history:
  "consumptionHistory (cleanupHistory t now)
   = splice_front
       (rat_of_nat (length (filter (\<lambda>item. timestamp item > now - historyRetentionMs t)
                              (consumptionHistory t))) - maxHistoryRecords t)
       (filter (\<lambda>item. timestamp item > now - historyRetentionMs t) (consumptionHistory t))"
proof -
  have "nat \<lfloor>x\<rfloor> = 0" if "x \<le> 0" for x :: rat
  proof -
    have "\<lfloor>x\<rfloor> \<le> 0" using that by (simp add: floor_le_iff)
    then show ?thesis by simp
  qed
  then show ?thesis
    by (simp add: cleanupHistory_def Let_def splice_front_def not_less)
qed

lemma splice_front_whole:
  "splice_front (rat_of_nat n - rat_of_nat m) xs = drop (n - m) xs"
proof -
  have "rat_of_nat n - rat_of_nat m = rat_of_int (int n - int m)" by simp
  then have "\<lfloor>rat_of_nat n - rat_of_nat m\<rfloor> = int n - int m"
    by (simp only: floor_of_int)
  moreover have "nat (int n - int m) = n - m" by arith
  ultimately show ?thesis by (simp only: splice_front_def)
qed

lemma cleanupHistory_whole:
  "maxHistoryRecords t = rat_of_nat m \<Longrightarrow>
   consumptionHistory (cleanupHistory t now)
   = drop (length (filter (\<lambda>item. timestamp item > now - historyRetentionMs t)
                     (consumptionHistory t)) - m)
       (filter (\<lambda>item. timestamp item > now - historyRetentionMs t) (consumptionHistory t))"
  by (simp only: cleanupHistory_history splice_front_whole)

lemma splice_front_keeps_last:
  assumes "xs \<noteq> []" "0 < m"
  shows "splice_front (rat_of_nat (length xs) - m) xs \<noteq> []
         \<and> last (splice_front (rat_of_nat (length xs) - m) xs) = last xs"
proof -
  have "rat_of_nat (length xs) - m < rat_of_int (int (length xs))" using assms(2) by simp
  then have "\<lfloor>rat_of_nat (length xs) - m\<rfloor> < int (length xs)"
    by (simp only: floor_less_iff)
  moreover have "0 < length xs" using assms(1) by simp
  ultimately have "nat \<lfloor>rat_of_nat (length xs) - m\<rfloor> < length xs"
    by arith
  then show ?thesis by (simp add: splice_front_def)
qed

lemma splice_front_below_one:
  "x < 1 \<Longrightarrow> splice_front x xs = xs"
proof -
  assume "x < 1"
  then have "\<lfloor>x\<rfloor> < 1" by (simp add: floor_less_iff)
  then have "nat \<lfloor>x\<rfloor> = 0" by simp
  then show ?thesis by (simp add: splice_front_def)
qed

lemma cleanupHistory_keeps_new:
  assumes "0 < historyRetentionMs t" "0 < maxHistoryRecords t"
    and "consumptionHistory t = h @ [r]" "timestamp r = now"
  shows "consumptionHistory (cleanupHistory t now) \<noteq> []
         \<and> last (consumptionHistory (cleanupHistory t now)) = r"
proof -
  let ?kept = "filter (\<lambda>item. timestamp item > now - historyRetentionMs t) (consumptionHistory t)"
  have k: "?kept = filter (\<lambda>item. timestamp item > now - historyRetentionMs t) h @ [r]"
    using assms by simp
  then have "?kept \<noteq> []" "last ?kept = r" by simp_all
  then show ?thesis
    using splice_front_keeps_last [of ?kept "maxHistoryRecords t"] assms(2)
    by (simp add: cleanupHistory_history)
qed

lemma update_first_length [simp]: "length (update_first P f xs) = length xs"
  by (induction xs) simp_all

lemma update_first_find:
  "find P xs = Some x \<Longrightarrow> P (f x) \<Longrightarrow> find P (update_first P f xs) = Some (f x)"
  by (induction xs) (auto split: if_splits)

lemma update_first_index:
  "find P xs = Some x \<Longrightarrow>
   \<exists>i < length xs. xs ! i = x \<and> (\<forall>j < i. \<not> P (xs ! j)) \<and> update_first P f xs = xs [i := f x]"
proof (induction xs)
  case Nil
  then show ?case by simp
next
  case (Cons a xs)
  show ?case
  proof (cases "P a")
    case True
    then have "a = x" using Cons.prems by simp
    then show ?thesis using True by (intro exI [of _ 0]) simp
  next
    case False
    then have "find P xs = Some x" using Cons.prems by simp
    then obtain i where i: "i < length xs" "xs ! i = x" "\<forall>j < i. \<not> P (xs ! j)"
      "update_first P f xs = xs [i := f x]"
      using Cons.IH by blast
    have "\<forall>j < Suc i. \<not> P ((a # xs) ! j)"
      using i(3) False by (auto simp: less_Suc_eq_0_disj)
    then show ?thesis using i False by (intro exI [of _ "Suc i"]) simp
  qed
qed

lemma set_actual_fields [simp]:
  "rpmBucket (set_actual t reqId actual) = rpmBucket t"
  "tpmBucket (set_actual t reqId actual) = tpmBucket t"
  "compensationDebt (set_actual t reqId actual) = compensationDebt t"
  "logger (set_actual t reqId actual) = logger t"
  by (simp_all add: set_actual_def)

lemma set_actual_find:
  "find (\<lambda>item. requestId item = reqId) (consumptionHistory t) = Some r \<Longrightarrow>
   find (\<lambda>item. requestId item = reqId) (consumptionHistory (set_actual t reqId actual))
     = Some (r \<lparr> tokens := actual, actualTokens := Some actual \<rparr>)"
proof -
  assume f: "find (\<lambda>item. requestId item = reqId) (consumptionHistory t) = Some r"
  then have "requestId r = reqId" by (auto simp: find_Some_iff)
  then show ?thesis
    unfolding set_actual_def using update_first_find [OF f] by simp
qed

lemma adjustConsumption_eq:
  assumes "0 \<le> actual"
    and "find (\<lambda>item. requestId item = reqId) (consumptionHistory t) = Some r"
  shows "adjustConsumption t now reqId actual =
     (let delta = actual - tokens r; tb = refill (tpmBucket t) now in
      if delta > 0 then
        if delta \<le> b_available tb
        then (Inr (), set_actual
                        (t \<lparr> tpmBucket := tb \<lparr> b_available := b_available tb - delta \<rparr> \<rparr>)
                        reqId actual)
        else (case adjustmentFailureStrategy t of
                strict \<Rightarrow>
                  (Inl (RateLimitError tpm_limit (fst (timeUntilTokens (tpmBucket t) now delta))),
                   t \<lparr> tpmBucket := tb \<rparr>)
              | warn \<Rightarrow>
                  (Inr (), set_actual
                     (t \<lparr> tpmBucket := tb,
                          logger := logger t @ [Warn_FailedToConsume delta reqId] \<rparr>)
                     reqId actual)
              | compensate \<Rightarrow>
                  (Inr (), set_actual
                     (t \<lparr> tpmBucket := tb,
                          compensationDebt := compensationDebt t + delta,
                          logger := logger t
                            @ [Info_AddingToDebt delta (compensationDebt t + delta)] \<rparr>)
                     reqId actual))
      else if delta < 0 then
        (Inr (), set_actual
           (t \<lparr> tpmBucket :=
                  persistState
                    (tpmBucket t
                       \<lparr> b_available := min (b_capacity (tpmBucket t))
                                          (b_available (tpmBucket t) + (- delta)) \<rparr>) now \<rparr>)
           reqId actual)
      else (Inr (), set_actual t reqId actual))"
proof -
  have a: "\<not> actual < 0" using assms(1) by simp
  show ?thesis
  proof (cases "actual - tokens r > 0")
    case True
    then show ?thesis
      using a assms(2)
      by (cases "adjustmentFailureStrategy t")
         (simp_all add: adjustConsumption_def Let_def bucket_consume_def
            handleAdjustmentFailureSync_def timeUntilTokens_def not_le)
  next
    case False
    then show ?thesis
      using a assms(2)
      by (simp add: adjustConsumption_def Let_def refund_def not_less)
  qed
qed

lemma adjustConsumption_history:
  assumes "fst (adjustConsumption t now reqId actual) = Inr ()"
  shows "consumptionHistory (snd (adjustConsumption t now reqId actual))
         = update_first (\<lambda>item. requestId item = reqId)
             (\<lambda>record. record \<lparr> tokens := actual, actualTokens := Some actual \<rparr>)
             (consumptionHistory t)"
proof (cases "actual < 0")
  case True
  then show ?thesis using assms by (simp add: adjustConsumption_def)
next
  case False
  then have a: "0 \<le> actual" by simp
  show ?thesis
  proof (cases "find (\<lambda>item. requestId item = reqId) (consumptionHistory t)")
    case None
    then show ?thesis using assms False by (simp add: adjustConsumption_def)
  next
    case (Some r)
    show ?thesis
      using assms unfolding adjustConsumption_eq [OF a Some] Let_def
      by (cases "adjustmentFailureStrategy t")
         (auto simp: set_actual_def split: if_splits)
  qed
qed

lemma adjustConsumption_keeps_all:
  "map timestamp (consumptionHistory (snd (adjustConsumption t now reqId actual)))
   = map timestamp (consumptionHistory t)"
proof -
  have upd: "map timestamp (update_first P (\<lambda>record. record \<lparr> tokens := a, actualTokens := b \<rparr>) xs)
             = map timestamp xs" for P a b and xs :: "'a ConsumptionRecord list"
    by (induction xs) simp_all
  show ?thesis
  proof (cases "actual < 0")
    case True
    then show ?thesis by (simp add: adjustConsumption_def)
  next
    case False
    then have a: "0 \<le> actual" by simp
    show ?thesis
    proof (cases "find (\<lambda>item. requestId item = reqId) (consumptionHistory t)")
      case None
      then show ?thesis using False by (simp add: adjustConsumption_def)
    next
      case (Some r)
      show ?thesis
        unfolding adjustConsumption_eq [OF a Some] Let_def
        by (cases "adjustmentFailureStrategy t") (simp_all add: set_actual_def upd)
    qed
  qed
qed


lemma getMetrics_state:
  "snd (getMetrics t now)
   = cleanupHistory t now \<lparr> rpmBucket := refill (rpmBucket t) now,
                             tpmBucket := refill (tpmBucket t) now \<rparr>"
  by (simp add: getMetrics_def dimensionMetrics_def available_def Let_def)


subsection \<open>Admission\<close>

text \<open>
  C3. For an estimate that is not negative, \<^verbatim>\<open>canProcess\<close> looks at the rate bucket
  first. When the refilled rate bucket holds less than one token the answer is not allowed
  with the reason \<^verbatim>\<open>rpm_limit\<close> and the rate bucket's \<^verbatim>\<open>timeUntilNextToken\<close>, whatever the
  volume bucket holds. Otherwise, when the refilled volume bucket holds less than the
  estimate, the answer is not allowed with the reason \<^verbatim>\<open>tpm_limit\<close> and
  \<^verbatim>\<open>timeUntilTokens(estimate)\<close>, which is positive on a bucket whose balance is not
  negative and whose rate is positive. Otherwise the answer is allowed. Every answer
  reports what both refilled buckets hold, and the call changes nothing but the lazy refill
  of the two buckets.
\<close>

theorem canProcess_order:
  "0 \<le> est \<Longrightarrow>
   (let rb = refill (rpmBucket t) now;
        tb = refill (tpmBucket t) now;
        result = canProcess t now est
    in snd result = t \<lparr> rpmBucket := rb, tpmBucket := tb \<rparr>
       \<and> (b_available rb < 1 \<longrightarrow>
            fst result
            = Inr \<lparr> allowed = False, reason = Some rpm_limit,
                    availableIn = Some (fst (timeUntilNextToken (rpmBucket t) now)),
                    availableTokens_rpm = b_available rb,
                    availableTokens_tpm = b_available tb \<rparr>)
       \<and> (1 \<le> b_available rb \<and> b_available tb < est \<longrightarrow>
            fst result
            = Inr \<lparr> allowed = False, reason = Some tpm_limit,
                    availableIn = Some (fst (timeUntilTokens (tpmBucket t) now est)),
                    availableTokens_rpm = b_available rb,
                    availableTokens_tpm = b_available tb \<rparr>
            \<and> (0 \<le> b_available tb \<and> 0 < b_refillRate (tpmBucket t) \<longrightarrow>
                 0 < fst (timeUntilTokens (tpmBucket t) now est)))
       \<and> (1 \<le> b_available rb \<and> est \<le> b_available tb \<longrightarrow>
            fst result
            = Inr \<lparr> allowed = True, reason = None, availableIn = None,
                    availableTokens_rpm = b_available rb,
                    availableTokens_tpm = b_available tb \<rparr>))"
proof -
  assume nn: "0 \<le> est"
  have pos: "0 < fst (timeUntilTokens (tpmBucket t) now est)"
    if "b_available (refill (tpmBucket t) now) < est" "0 < b_refillRate (tpmBucket t)"
      "0 \<le> b_available (refill (tpmBucket t) now)"
  proof -
    have "0 < (est - b_available (refill (tpmBucket t) now)) / b_refillRate (tpmBucket t) * 1000"
      using that by simp
    then show ?thesis using that nn
      by (auto simp add: timeUntilTokens_def Let_def not_le)
  qed
  show ?thesis
    using pos by (simp add: canProcess_eq [OF nn] Let_def not_less)
qed

theorem canProcess_order_witness:
  "(0 :: rat) \<le> 1500
   \<and> fst (canProcess example_throttle 0 1500)
       = Inr \<lparr> allowed = False, reason = Some tpm_limit, availableIn = Some 30000,
               availableTokens_rpm = 60, availableTokens_tpm = 1000 \<rparr>
   \<and> fst (canProcess exhausted_throttle 0 1500)
       = Inr \<lparr> allowed = False, reason = Some rpm_limit, availableIn = Some 1000,
               availableTokens_rpm = 0, availableTokens_tpm = 0 \<rparr>
   \<and> fst (canProcess example_throttle 0 500)
       = Inr \<lparr> allowed = True, reason = None, availableIn = None,
               availableTokens_rpm = 60, availableTokens_tpm = 1000 \<rparr>"
proof -
  have nn: "(0 :: rat) \<le> 1500" "(0 :: rat) \<le> 500" by simp_all
  show ?thesis
    using canProcess_order [OF nn(1), of example_throttle 0]
      canProcess_order [OF nn(1), of exhausted_throttle 0]
      canProcess_order [OF nn(2), of example_throttle 0]
    by (simp add: example_throttle_def exhausted_throttle_def eval_defs)
qed

subsection \<open>Consumption\<close>

text \<open>
  C1, as stated, fails in two places. A \<^verbatim>\<open>consume\<close> that is denied does change the state:
  the admission check refills both buckets, so that after a denied \<^verbatim>\<open>consume\<close> at clock
  7000 the rate bucket holds 60 tokens instead of 59 and both buckets have \<open>lastRefill\<close>
  7000 instead of 1000. And a request id of three spaces is not empty, yet \<^verbatim>\<open>consume\<close>
  throws for it instead of returning.
\<close>

theorem denied_consume_refills:
  "new_LLMThrottle example_config 0 = Inr example_throttle
   \<and> consumed_throttle = snd (consume example_throttle 1000 ''request-1'' 500 None)
   \<and> fst (consume consumed_throttle 7000 ''request-2'' 900 None) = Inr False
   \<and> b_available (rpmBucket consumed_throttle) = 59
   \<and> b_available (rpmBucket (snd (consume consumed_throttle 7000 ''request-2'' 900 None))) = 60
   \<and> b_lastRefill (tpmBucket consumed_throttle) = 1000
   \<and> b_lastRefill (tpmBucket (snd (consume consumed_throttle 7000 ''request-2'' 900 None)))
       = 7000
   \<and> snd (consume consumed_throttle 7000 ''request-2'' 900 None) \<noteq> consumed_throttle
   \<and> ''   '' \<noteq> []
   \<and> consume example_throttle 1000 ''   '' 100 None
       = (Inl (Error ''Request ID cannot be empty''), example_throttle)"
proof -
  have reached: "consumed_throttle = snd (consume example_throttle 1000 ''request-1'' 500 None)"
    by (simp only: consumed_throttle_def)
  have denied: "fst (consume consumed_throttle 7000 ''request-2'' 900 None) = Inr False
   \<and> b_available (rpmBucket consumed_throttle) = 59
   \<and> b_available (rpmBucket (snd (consume consumed_throttle 7000 ''request-2'' 900 None))) = 60
   \<and> b_lastRefill (tpmBucket consumed_throttle) = 1000
   \<and> b_lastRefill (tpmBucket (snd (consume consumed_throttle 7000 ''request-2'' 900 None)))
       = 7000"
    by (simp add: consumed_throttle_eq eval_defs)
  then have changed: "snd (consume consumed_throttle 7000 ''request-2'' 900 None)
                      \<noteq> consumed_throttle"
    by auto
  have blank: "''   '' \<noteq> []
   \<and> consume example_throttle 1000 ''   '' 100 None
       = (Inl (Error ''Request ID cannot be empty''), example_throttle)"
    by (simp add: consume_def trim_def isWhiteSpace_def)
  show ?thesis
    using example_throttle_constructed(1) reached denied changed blank
    by (simp only: simp_thms)
qed

text \<open>
  C1, amended. For a request id that is not empty or blank, \<^verbatim>\<open>consume\<close> answers what the
  admission check answers for \<open>needed = estimate + compensationDebt\<close>, the check throwing
  when \<open>needed\<close> is negative, with the engine untouched. When the check denies (the
  refilled rate bucket short of one token or the refilled volume bucket short of
  \<open>needed\<close>), the call returns false; the debt is not cleared, the ledger is as before, and
  the only change is the lazy refill of both buckets at the clock reading of the call,
  nothing being debited. When the check allows, the call returns true, the refilled rate
  bucket is debited by 1 and the refilled volume bucket by \<open>needed\<close>, the debt is zero,
  and the ledger is the old ledger with the new record appended, then trimmed; the new
  record is its last element (retention and size bound being positive) and carries the
  estimate as \<open>tokens\<close> and \<open>estimatedTokens\<close> and the debt just paid as
  \<open>compensationDebt\<close>.
\<close>

theorem consume_protocol:
  "\<not> (reqId = [] \<or> trim reqId = []) \<Longrightarrow>
   (let needed = est + compensationDebt t;
        rb = refill (rpmBucket t) now;
        tb = refill (tpmBucket t) now;
        record = \<lparr> timestamp = now, tokens = est, requestId = reqId, metadata = md,
                   estimatedTokens = Some est, actualTokens = None,
                   r_compensationDebt = Some (compensationDebt t) \<rparr>;
        result = consume t now reqId est md
    in fst result = map_sum id allowed (fst (canProcess t now needed))
       \<and> (needed < 0 \<longrightarrow>
            result = (Inl (Error ''Estimated tokens cannot be negative''), t))
       \<and> (0 \<le> needed \<and> (b_available rb < 1 \<or> b_available tb < needed) \<longrightarrow>
            result = (Inr False, t \<lparr> rpmBucket := rb, tpmBucket := tb \<rparr>)
            \<and> compensationDebt (snd result) = compensationDebt t
            \<and> consumptionHistory (snd result) = consumptionHistory t)
       \<and> (0 \<le> needed \<and> 1 \<le> b_available rb \<and> needed \<le> b_available tb \<longrightarrow>
            fst result = Inr True
            \<and> rpmBucket (snd result) = rb \<lparr> b_available := b_available rb - 1 \<rparr>
            \<and> tpmBucket (snd result) = tb \<lparr> b_available := b_available tb - needed \<rparr>
            \<and> compensationDebt (snd result) = 0
            \<and> consumptionHistory (snd result)
                = consumptionHistory
                    (cleanupHistory
                       (t \<lparr> consumptionHistory := consumptionHistory t @ [record] \<rparr>) now)
            \<and> (0 < historyRetentionMs t \<and> 0 < maxHistoryRecords t \<longrightarrow>
                  consumptionHistory (snd result) \<noteq> []
                  \<and> last (consumptionHistory (snd result)) = record)))"
proof -
  assume id: "\<not> (reqId = [] \<or> trim reqId = [])"
  define needed where "needed = est + compensationDebt t"
  define rb where "rb = refill (rpmBucket t) now"
  define tb where "tb = refill (tpmBucket t) now"
  define newrec :: "'a ConsumptionRecord" where
    "newrec = \<lparr> timestamp = now, tokens = est, requestId = reqId, metadata = md,
                estimatedTokens = Some est, actualTokens = None,
                r_compensationDebt = Some (compensationDebt t) \<rparr>"
  define result where "result = consume t now reqId est md"
  note eq = consume_eq [OF id, of t now est md, folded result_def]
  have check: "fst result = map_sum id allowed (fst (canProcess t now needed))"
  proof (cases "needed < 0")
    case True
    then show ?thesis using eq
      by (simp add: needed_def canProcess_def Let_def)
  next
    case False
    then have "0 \<le> needed" by simp
    then show ?thesis using eq False
      by (simp add: canProcess_eq needed_def Let_def not_less)
  qed
  have thrown: "result = (Inl (Error ''Estimated tokens cannot be negative''), t)"
    if "needed < 0"
    using that eq by (simp add: needed_def Let_def)
  have denied: "result = (Inr False, t \<lparr> rpmBucket := rb, tpmBucket := tb \<rparr>)"
    if "0 \<le> needed" "b_available rb < 1 \<or> b_available tb < needed"
    using that eq by (simp add: needed_def rb_def tb_def Let_def not_less)
  have ok: "result =
      (Inr True,
       cleanupHistory
         (t \<lparr> rpmBucket := rb \<lparr> b_available := b_available rb - 1 \<rparr>,
              tpmBucket := tb \<lparr> b_available := b_available tb - needed \<rparr>,
              compensationDebt := 0,
              consumptionHistory := consumptionHistory t @ [newrec] \<rparr>) now)"
    if "0 \<le> needed" "1 \<le> b_available rb" "needed \<le> b_available tb"
    using that eq by (simp add: needed_def rb_def tb_def newrec_def Let_def not_less)
  have hist: "consumptionHistory (snd result)
                = consumptionHistory
                    (cleanupHistory
                       (t \<lparr> consumptionHistory := consumptionHistory t @ [newrec] \<rparr>) now)"
    if "0 \<le> needed" "1 \<le> b_available rb" "needed \<le> b_available tb"
    unfolding ok [OF that] by (simp add: cleanupHistory_history)
  have new: "consumptionHistory (snd result) \<noteq> []
             \<and> last (consumptionHistory (snd result)) = newrec"
    if "0 \<le> needed" "1 \<le> b_available rb" "needed \<le> b_available tb"
      "0 < historyRetentionMs t" "0 < maxHistoryRecords t"
    unfolding hist [OF that(1-3)]
    by (rule cleanupHistory_keeps_new [where h = "consumptionHistory t"])
       (simp_all add: that newrec_def)
  show ?thesis
    unfolding Let_def needed_def [symmetric] rb_def [symmetric] tb_def [symmetric]
      newrec_def [symmetric] result_def [symmetric]
    using check thrown denied ok hist new by simp
qed

theorem consume_protocol_witness:
  "\<not> (''request-1'' = [] \<or> trim ''request-1'' = [])
   \<and> fst (consume example_throttle 1000 ''request-1'' 500 None) = Inr True
   \<and> b_available (rpmBucket (snd (consume example_throttle 1000 ''request-1'' 500 None))) = 59
   \<and> b_available (tpmBucket (snd (consume example_throttle 1000 ''request-1'' 500 None))) = 500
   \<and> last (consumptionHistory (snd (consume example_throttle 1000 ''request-1'' 500 None)))
       = \<lparr> timestamp = 1000, tokens = 500, requestId = ''request-1'', metadata = None,
           estimatedTokens = Some 500, actualTokens = None, r_compensationDebt = Some 0 \<rparr>
   \<and> fst (consume example_throttle 1000 ''request-1'' 1500 None) = Inr False
   \<and> compensationDebt (snd (consume debt_throttle 0 ''b'' 50 None)) = 50
   \<and> fst (consume debt_throttle 0 ''b'' 50 None) = Inr False"
proof -
  have id: "\<not> (''request-1'' = [] \<or> trim ''request-1'' = [])"
    "\<not> (''b'' = [] \<or> trim ''b'' = [])"
    by (simp_all add: trim_def isWhiteSpace_def)
  show ?thesis
    using id(1)
      consume_protocol [OF id(1), of 500 example_throttle 1000 None]
      consume_protocol [OF id(1), of 1500 example_throttle 1000 None]
      consume_protocol [OF id(2), of 50 debt_throttle 0 None]
    by (simp add: example_throttle_def debt_throttle_eq eval_defs)
qed

subsection \<open>Reconciliation\<close>

text \<open>
  C2. For \<open>actual \<ge> 0\<close> and a request id found in the ledger, with
  \<open>delta = actual - record.tokens\<close>: when \<open>delta > 0\<close> and the refilled volume bucket holds
  \<open>delta\<close>, it is debited by \<open>delta\<close>; when it holds less, \<^verbatim>\<open>compensate\<close> adds \<open>delta\<close>
  to the debt and logs, \<^verbatim>\<open>warn\<close> logs, and both proceed with the bucket not debited, while
  \<^verbatim>\<open>strict\<close> throws a \<^verbatim>\<open>RateLimitError\<close> with the reason \<^verbatim>\<open>tpm_limit\<close> and
  \<^verbatim>\<open>timeUntilTokens(delta)\<close>, the record, the debt and the ledger being as before. When
  \<open>delta < 0\<close> the volume bucket is refunded \<open>- delta\<close>, capped at the capacity; when
  \<open>delta = 0\<close> no bucket changes. In every case but the failure under \<^verbatim>\<open>strict\<close> the call
  returns and the first record with the request id has \<open>tokens = actualTokens = actual\<close>.
\<close>

theorem adjustConsumption_protocol:
  "0 \<le> actual \<Longrightarrow>
   find (\<lambda>item. requestId item = reqId) (consumptionHistory t) = Some r \<Longrightarrow>
   (let delta = actual - tokens r;
        tb = refill (tpmBucket t) now;
        result = adjustConsumption t now reqId actual;
        shortfall = (0 < delta \<and> b_available tb < delta)
    in (0 < delta \<and> delta \<le> b_available tb \<longrightarrow>
          fst result = Inr ()
          \<and> tpmBucket (snd result) = tb \<lparr> b_available := b_available tb - delta \<rparr>
          \<and> compensationDebt (snd result) = compensationDebt t
          \<and> logger (snd result) = logger t)
       \<and> (shortfall \<and> adjustmentFailureStrategy t = compensate \<longrightarrow>
          fst result = Inr ()
          \<and> tpmBucket (snd result) = tb
          \<and> compensationDebt (snd result) = compensationDebt t + delta
          \<and> logger (snd result)
              = logger t @ [Info_AddingToDebt delta (compensationDebt t + delta)])
       \<and> (shortfall \<and> adjustmentFailureStrategy t = warn \<longrightarrow>
          fst result = Inr ()
          \<and> tpmBucket (snd result) = tb
          \<and> compensationDebt (snd result) = compensationDebt t
          \<and> logger (snd result) = logger t @ [Warn_FailedToConsume delta reqId])
       \<and> (shortfall \<and> adjustmentFailureStrategy t = strict \<longrightarrow>
          result = (Inl (RateLimitError tpm_limit
                           (fst (timeUntilTokens (tpmBucket t) now delta))),
                    t \<lparr> tpmBucket := tb \<rparr>))
       \<and> (delta < 0 \<longrightarrow>
          fst result = Inr ()
          \<and> tpmBucket (snd result)
              = persistState
                  (tpmBucket t
                     \<lparr> b_available := min (b_capacity (tpmBucket t))
                                        (b_available (tpmBucket t) + (- delta)) \<rparr>) now
          \<and> compensationDebt (snd result) = compensationDebt t
          \<and> logger (snd result) = logger t)
       \<and> (delta = 0 \<longrightarrow>
          fst result = Inr ()
          \<and> tpmBucket (snd result) = tpmBucket t
          \<and> compensationDebt (snd result) = compensationDebt t
          \<and> logger (snd result) = logger t)
       \<and> (\<not> (shortfall \<and> adjustmentFailureStrategy t = strict) \<longrightarrow>
          fst result = Inr ()
          \<and> consumptionHistory (snd result)
              = update_first (\<lambda>item. requestId item = reqId)
                  (\<lambda>record. record \<lparr> tokens := actual, actualTokens := Some actual \<rparr>)
                  (consumptionHistory t)
          \<and> find (\<lambda>item. requestId item = reqId) (consumptionHistory (snd result))
              = Some (r \<lparr> tokens := actual, actualTokens := Some actual \<rparr>))
       \<and> rpmBucket (snd result) = rpmBucket t)"
proof -
  assume a: "0 \<le> actual"
    and f: "find (\<lambda>item. requestId item = reqId) (consumptionHistory t) = Some r"
  define delta where "delta = actual - tokens r"
  define tb where "tb = refill (tpmBucket t) now"
  define result where "result = adjustConsumption t now reqId actual"
  note eq = adjustConsumption_eq [OF a f, of now, folded result_def,
      unfolded Let_def, folded delta_def tb_def]
  have "requestId r = reqId" using f by (auto simp: find_Some_iff)
  then have fnd: "find (\<lambda>item. requestId item = reqId)
               (update_first (\<lambda>item. requestId item = reqId)
                  (\<lambda>record. record \<lparr> tokens := actual, actualTokens := Some actual \<rparr>)
                  (consumptionHistory t))
              = Some (r \<lparr> tokens := actual, actualTokens := Some actual \<rparr>)"
    using update_first_find [OF f] by simp
  have hist: "consumptionHistory (set_actual u reqId actual)
              = update_first (\<lambda>item. requestId item = reqId)
                  (\<lambda>record. record \<lparr> tokens := actual, actualTokens := Some actual \<rparr>)
                  (consumptionHistory t)"
    if "consumptionHistory u = consumptionHistory t" for u :: "'a LLMThrottle"
    using that by (simp add: set_actual_def)
  consider (enough) "0 < delta" "delta \<le> b_available tb"
    | (short) "0 < delta" "b_available tb < delta"
    | (less) "delta < 0"
    | (same) "delta = 0"
    by linarith
  then show ?thesis
  proof cases
    case enough
    then show ?thesis
      unfolding Let_def delta_def [symmetric] tb_def [symmetric] result_def [symmetric]
      using eq by (simp add: fnd hist)
  next
    case short
    then show ?thesis
      unfolding Let_def delta_def [symmetric] tb_def [symmetric] result_def [symmetric]
      using eq by (cases "adjustmentFailureStrategy t") (simp_all add: fnd hist not_le)
  next
    case less
    then show ?thesis
      unfolding Let_def delta_def [symmetric] tb_def [symmetric] result_def [symmetric]
      using eq by (simp add: fnd hist)
  next
    case same
    then show ?thesis
      unfolding Let_def delta_def [symmetric] tb_def [symmetric] result_def [symmetric]
      using eq by (simp add: fnd hist)
  qed
qed

theorem adjustConsumption_protocol_witness:
  "(0 :: rat) \<le> 300
   \<and> find (\<lambda>item. requestId item = ''request-1'') (consumptionHistory consumed_throttle)
       = Some \<lparr> timestamp = 1000, tokens = 500, requestId = ''request-1'', metadata = None,
                estimatedTokens = Some 500, actualTokens = None, r_compensationDebt = Some 0 \<rparr>
   \<and> fst (adjustConsumption consumed_throttle 1000 ''request-1'' 300) = Inr ()
   \<and> b_available (tpmBucket (snd (adjustConsumption consumed_throttle 1000 ''request-1'' 300)))
       = 700
   \<and> consumptionHistory (snd (adjustConsumption consumed_throttle 1000 ''request-1'' 300))
       = [\<lparr> timestamp = 1000, tokens = 300, requestId = ''request-1'', metadata = None,
            estimatedTokens = Some 500, actualTokens = Some 300,
            r_compensationDebt = Some 0 \<rparr>]
   \<and> fst (adjustConsumption (snd (consume compensate_throttle 0 ''a'' 100 None)) 0 ''a'' 150)
       = Inr ()
   \<and> compensationDebt debt_throttle = 50
   \<and> b_available (tpmBucket debt_throttle) = 0
   \<and> map tokens (consumptionHistory debt_throttle) = [150]
   \<and> fst (adjustConsumption
             (snd (consume (compensate_throttle \<lparr> adjustmentFailureStrategy := strict \<rparr>)
                     0 ''a'' 100 None)) 0 ''a'' 150)
       = Inl (RateLimitError tpm_limit 30000)
   \<and> map tokens
         (consumptionHistory
            (snd (adjustConsumption
                    (snd (consume (compensate_throttle \<lparr> adjustmentFailureStrategy := strict \<rparr>)
                            0 ''a'' 100 None)) 0 ''a'' 150)))
       = [100]"
proof -
  have a: "(0 :: rat) \<le> 300" "(0 :: rat) \<le> 150" by simp_all
  have f: "find (\<lambda>item. requestId item = ''request-1'') (consumptionHistory consumed_throttle)
       = Some \<lparr> timestamp = 1000, tokens = 500, requestId = ''request-1'', metadata = None,
                estimatedTokens = Some 500, actualTokens = None, r_compensationDebt = Some 0 \<rparr>"
    by (simp add: consumed_throttle_eq)
  have g: "find (\<lambda>item. requestId item = ''a'')
             (consumptionHistory (snd (consume compensate_throttle 0 ''a'' 100 None)))
       = Some \<lparr> timestamp = 0, tokens = 100, requestId = ''a'', metadata = None,
                estimatedTokens = Some 100, actualTokens = None, r_compensationDebt = Some 0 \<rparr>"
    by (simp add: compensate_throttle_def eval_defs)
  have h: "find (\<lambda>item. requestId item = ''a'')
             (consumptionHistory
                (snd (consume (compensate_throttle \<lparr> adjustmentFailureStrategy := strict \<rparr>)
                        0 ''a'' 100 None)))
       = Some \<lparr> timestamp = 0, tokens = 100, requestId = ''a'', metadata = None,
                estimatedTokens = Some 100, actualTokens = None, r_compensationDebt = Some 0 \<rparr>"
    by (simp add: compensate_throttle_def eval_defs)
  have refund: "fst (adjustConsumption consumed_throttle 1000 ''request-1'' 300) = Inr ()
   \<and> b_available (tpmBucket (snd (adjustConsumption consumed_throttle 1000 ''request-1'' 300)))
       = 700
   \<and> consumptionHistory (snd (adjustConsumption consumed_throttle 1000 ''request-1'' 300))
       = [\<lparr> timestamp = 1000, tokens = 300, requestId = ''request-1'', metadata = None,
            estimatedTokens = Some 500, actualTokens = Some 300,
            r_compensationDebt = Some 0 \<rparr>]"
    using adjustConsumption_protocol [OF a(1) f, of 1000]
    by (simp add: consumed_throttle_eq eval_defs)
  have debt: "fst (adjustConsumption (snd (consume compensate_throttle 0 ''a'' 100 None)) 0 ''a'' 150)
       = Inr ()
   \<and> compensationDebt debt_throttle = 50
   \<and> b_available (tpmBucket debt_throttle) = 0
   \<and> map tokens (consumptionHistory debt_throttle) = [150]"
    using adjustConsumption_protocol [OF a(2) g, of 0]
    by (simp add: debt_throttle_def compensate_throttle_def eval_defs)
  have fails: "fst (adjustConsumption
             (snd (consume (compensate_throttle \<lparr> adjustmentFailureStrategy := strict \<rparr>)
                     0 ''a'' 100 None)) 0 ''a'' 150)
       = Inl (RateLimitError tpm_limit 30000)
   \<and> map tokens
         (consumptionHistory
            (snd (adjustConsumption
                    (snd (consume (compensate_throttle \<lparr> adjustmentFailureStrategy := strict \<rparr>)
                            0 ''a'' 100 None)) 0 ''a'' 150)))
       = [100]"
    using adjustConsumption_protocol [OF a(2) h, of 0]
    by (simp add: compensate_throttle_def eval_defs)
  show ?thesis
    using a(1) f refund debt fails by (simp only: simp_thms)
qed

subsection \<open>Request ids are not unique\<close>

text \<open>
  C10. In a state whose ledger holds a record with request id \<open>reqId\<close>, a \<^verbatim>\<open>consume\<close> with
  the same id that passes the admission check returns true and appends a record with that
  id (the ledger is then trimmed as after every successful \<^verbatim>\<open>consume\<close>; when no record has
  expired and the size bound is not reached, the ledger is exactly the old one followed by
  the new record). An \<^verbatim>\<open>adjustConsumption\<close> for the id that returns changes one record
  only: the one at the first position whose request id is \<open>reqId\<close>.
\<close>

theorem duplicate_requestId:
  "find (\<lambda>item. requestId item = reqId) (consumptionHistory t) = Some r \<Longrightarrow>
   \<not> (reqId = [] \<or> trim reqId = []) \<Longrightarrow>
   (let needed = est + compensationDebt t;
        record = \<lparr> timestamp = now, tokens = est, requestId = reqId, metadata = md,
                   estimatedTokens = Some est, actualTokens = None,
                   r_compensationDebt = Some (compensationDebt t) \<rparr>;
        result = consume t now reqId est md;
        adjusted = adjustConsumption t now' reqId actual
    in (fst (canProcess t now needed) = Inr check \<and> allowed check \<longrightarrow>
          fst result = Inr True
          \<and> consumptionHistory (snd result)
              = consumptionHistory
                  (cleanupHistory
                     (t \<lparr> consumptionHistory := consumptionHistory t @ [record] \<rparr>) now)
          \<and> ((\<forall>item \<in> set (consumptionHistory t). now - historyRetentionMs t < timestamp item)
               \<and> 0 < historyRetentionMs t
               \<and> rat_of_nat (length (consumptionHistory t)) < maxHistoryRecords t \<longrightarrow>
              consumptionHistory (snd result) = consumptionHistory t @ [record]))
       \<and> (fst adjusted = Inr () \<longrightarrow>
          (\<exists>i < length (consumptionHistory t).
              consumptionHistory t ! i = r
              \<and> (\<forall>j < i. requestId (consumptionHistory t ! j) \<noteq> reqId)
              \<and> consumptionHistory (snd adjusted)
                  = (consumptionHistory t)
                      [i := r \<lparr> tokens := actual, actualTokens := Some actual \<rparr>])))"
proof -
  assume f: "find (\<lambda>item. requestId item = reqId) (consumptionHistory t) = Some r"
    and id: "\<not> (reqId = [] \<or> trim reqId = [])"
  define needed where "needed = est + compensationDebt t"
  define newrec :: "'a ConsumptionRecord" where
    "newrec = \<lparr> timestamp = now, tokens = est, requestId = reqId, metadata = md,
                estimatedTokens = Some est, actualTokens = None,
                r_compensationDebt = Some (compensationDebt t) \<rparr>"
  define result where "result = consume t now reqId est md"
  define adjusted where "adjusted = adjustConsumption t now' reqId actual"
  have admitted: "fst result = Inr True
      \<and> consumptionHistory (snd result)
          = consumptionHistory
              (cleanupHistory (t \<lparr> consumptionHistory := consumptionHistory t @ [newrec] \<rparr>) now)"
    if c: "fst (canProcess t now needed) = Inr check" "allowed check"
  proof -
    have nn: "0 \<le> needed"
      using c(1) by (cases "needed < 0") (simp_all add: canProcess_def)
    have ok: "\<not> b_available (refill (rpmBucket t) now) < 1"
      "\<not> b_available (refill (tpmBucket t) now) < needed"
      using c unfolding canProcess_eq [OF nn] by (auto split: if_splits)
    show ?thesis
      unfolding result_def consume_eq [OF id] Let_def needed_def [symmetric]
        newrec_def [symmetric]
      using nn ok by (simp add: cleanupHistory_history)
  qed
  have kept: "consumptionHistory
                (cleanupHistory (t \<lparr> consumptionHistory := consumptionHistory t @ [newrec] \<rparr>) now)
              = consumptionHistory t @ [newrec]"
    if fresh: "\<forall>item \<in> set (consumptionHistory t). now - historyRetentionMs t < timestamp item"
      and pos: "0 < historyRetentionMs t"
      and room: "rat_of_nat (length (consumptionHistory t)) < maxHistoryRecords t"
  proof -
    define u where "u = t \<lparr> consumptionHistory := consumptionHistory t @ [newrec] \<rparr>"
    have u: "consumptionHistory u = consumptionHistory t @ [newrec]"
      "historyRetentionMs u = historyRetentionMs t" "maxHistoryRecords u = maxHistoryRecords t"
      by (simp_all add: u_def)
    have all: "filter (\<lambda>item. now - historyRetentionMs u < timestamp item)
                 (consumptionHistory u)
               = consumptionHistory t @ [newrec]"
      using fresh pos by (simp add: u newrec_def)
    have "rat_of_nat (length (consumptionHistory t @ [newrec])) - maxHistoryRecords u < 1"
      using room by (simp add: u)
    then have "splice_front
                 (rat_of_nat (length (consumptionHistory t @ [newrec])) - maxHistoryRecords u)
                 (consumptionHistory t @ [newrec])
               = consumptionHistory t @ [newrec]"
      by (rule splice_front_below_one)
    then show ?thesis
      unfolding u_def [symmetric] cleanupHistory_history [of u now] all .
  qed
  have adj: "\<exists>i < length (consumptionHistory t).
              consumptionHistory t ! i = r
              \<and> (\<forall>j < i. requestId (consumptionHistory t ! j) \<noteq> reqId)
              \<and> consumptionHistory (snd adjusted)
                  = (consumptionHistory t)
                      [i := r \<lparr> tokens := actual, actualTokens := Some actual \<rparr>]"
    if "fst adjusted = Inr ()"
    using update_first_index [OF f,
        of "\<lambda>record. record \<lparr> tokens := actual, actualTokens := Some actual \<rparr>"]
      adjustConsumption_history [OF that [unfolded adjusted_def]]
    unfolding adjusted_def by simp
  show ?thesis
    unfolding Let_def needed_def [symmetric] newrec_def [symmetric] result_def [symmetric]
      adjusted_def [symmetric]
    using admitted kept adj by simp
qed

theorem duplicate_requestId_witness:
  "find (\<lambda>item. requestId item = ''request-1'') (consumptionHistory consumed_throttle)
     = Some \<lparr> timestamp = 1000, tokens = 500, requestId = ''request-1'', metadata = None,
              estimatedTokens = Some 500, actualTokens = None, r_compensationDebt = Some 0 \<rparr>
   \<and> \<not> (''request-1'' = [] \<or> trim ''request-1'' = [])
   \<and> fst (consume consumed_throttle 2000 ''request-1'' 200 None) = Inr True
   \<and> map requestId (consumptionHistory twice_throttle) = [''request-1'', ''request-1'']
   \<and> fst (adjustConsumption twice_throttle 2000 ''request-1'' 300) = Inr ()
   \<and> map tokens (consumptionHistory (snd (adjustConsumption twice_throttle 2000 ''request-1'' 300)))
       = [300, 200]
   \<and> map actualTokens
         (consumptionHistory (snd (adjustConsumption twice_throttle 2000 ''request-1'' 300)))
       = [Some 300, None]"
proof -
  have f: "find (\<lambda>item. requestId item = ''request-1'') (consumptionHistory consumed_throttle)
     = Some \<lparr> timestamp = 1000, tokens = 500, requestId = ''request-1'', metadata = None,
              estimatedTokens = Some 500, actualTokens = None, r_compensationDebt = Some 0 \<rparr>"
    by (simp add: consumed_throttle_eq)
  have f2: "find (\<lambda>item. requestId item = ''request-1'') (consumptionHistory twice_throttle)
     = Some \<lparr> timestamp = 1000, tokens = 500, requestId = ''request-1'', metadata = None,
              estimatedTokens = Some 500, actualTokens = None, r_compensationDebt = Some 0 \<rparr>"
    by (simp add: twice_throttle_eq)
  have id: "\<not> (''request-1'' = [] \<or> trim ''request-1'' = [])"
    by (simp add: trim_def isWhiteSpace_def)
  show ?thesis
    using f id
      duplicate_requestId [OF f id, of 200 2000 None 2000 300]
      duplicate_requestId [OF f2 id, of 200 2000 None 2000 300]
    by (simp add: twice_throttle_eq consumed_throttle_eq eval_defs)
qed

subsection \<open>Trimming the ledger\<close>

text \<open>
  C5, as stated, fails: \<^verbatim>\<open>adjustConsumption\<close> changes the engine and never calls
  \<^verbatim>\<open>cleanupHistory\<close>. A record consumed at clock 0 is still in the ledger after an
  \<^verbatim>\<open>adjustConsumption\<close> at clock 100000, with a retention of 60000.
\<close>

theorem adjustConsumption_keeps_expired:
  "new_LLMThrottle example_config 0 = Inr example_throttle
   \<and> fst (consume example_throttle 0 ''a'' 100 None) = Inr True
   \<and> fst (adjustConsumption (snd (consume example_throttle 0 ''a'' 100 None)) 100000 ''a'' 90)
       = Inr ()
   \<and> map timestamp (consumptionHistory expired_after_adjust) = [0]
   \<and> historyRetentionMs expired_after_adjust = 60000
   \<and> (0 :: rat) \<le> 100000 - 60000"
  using example_throttle_constructed(1)
  by (simp add: expired_after_adjust_def example_throttle_def consume_def canProcess_def
      hasTokens_def available_def refill_def bucket_consume_def persistState_def
      cleanupHistory_def splice_front_def adjustConsumption_def refund_def set_actual_def
      trim_def
      isWhiteSpace_def Let_def)

text \<open>
  C5, amended. \<^verbatim>\<open>cleanupHistory\<close> keeps the records with
  \<open>timestamp > now - historyRetentionMs\<close> and then, \<open>maxHistoryRecords\<close> being a whole
  number, when more than \<open>maxHistoryRecords\<close> are left, drops the excess from the front
  of the array (the earliest inserted), so that the last \<open>maxHistoryRecords\<close> of the
  kept records remain. It runs in \<^verbatim>\<open>getMetrics\<close>, \<^verbatim>\<open>getConsumptionHistory\<close>,
  \<^verbatim>\<open>setMaxHistoryRecords\<close> and at the end of every \<^verbatim>\<open>consume\<close> that returns true;
  \<^verbatim>\<open>adjustConsumption\<close> removes no record.
\<close>

theorem cleanupHistory_bounds:
  "maxHistoryRecords t = rat_of_nat m \<Longrightarrow>
   (let kept = filter (\<lambda>item. now - historyRetentionMs t < timestamp item)
                 (consumptionHistory t);
        cleaned = consumptionHistory (cleanupHistory t now);
        record = \<lparr> timestamp = now, tokens = est, requestId = reqId, metadata = md,
                   estimatedTokens = Some est, actualTokens = None,
                   r_compensationDebt = Some (compensationDebt t) \<rparr>
    in cleaned = drop (length kept - m) kept
       \<and> length cleaned = min (length kept) m
       \<and> rat_of_nat (length cleaned) \<le> maxHistoryRecords t
       \<and> (\<forall>item \<in> set cleaned. now - historyRetentionMs t < timestamp item)
       \<and> kept = take (length kept - m) kept @ cleaned
       \<and> consumptionHistory (snd (getMetrics t now)) = cleaned
       \<and> fst (getConsumptionHistory t now) = cleaned
       \<and> consumptionHistory (snd (getConsumptionHistory t now)) = cleaned
       \<and> (0 < count \<longrightarrow>
            fst (setMaxHistoryRecords t now (rat_of_nat count)) = Inr ()
            \<and> consumptionHistory (snd (setMaxHistoryRecords t now (rat_of_nat count)))
                = drop (length kept - count) kept)
       \<and> (fst (consume t now reqId est md) = Inr True \<longrightarrow>
            consumptionHistory (snd (consume t now reqId est md))
            = consumptionHistory
                (cleanupHistory
                   (t \<lparr> consumptionHistory := consumptionHistory t @ [record] \<rparr>) now)
            \<and> rat_of_nat (length (consumptionHistory (snd (consume t now reqId est md))))
                \<le> maxHistoryRecords t)
       \<and> map timestamp (consumptionHistory (snd (adjustConsumption t now reqId actual)))
           = map timestamp (consumptionHistory t))"
proof -
  assume whole: "maxHistoryRecords t = rat_of_nat m"
  define kept where
    "kept = filter (\<lambda>item. now - historyRetentionMs t < timestamp item) (consumptionHistory t)"
  define cleaned where "cleaned = consumptionHistory (cleanupHistory t now)"
  define newrec :: "'a ConsumptionRecord" where
    "newrec = \<lparr> timestamp = now, tokens = est, requestId = reqId, metadata = md,
                estimatedTokens = Some est, actualTokens = None,
                r_compensationDebt = Some (compensationDebt t) \<rparr>"
  have c: "cleaned = drop (length kept - m) kept"
    by (simp add: cleaned_def kept_def cleanupHistory_history whole splice_front_whole)
  have len: "length cleaned = min (length kept) m"
    unfolding c by simp
  then have "length cleaned \<le> m" by simp
  then have bound: "rat_of_nat (length cleaned) \<le> maxHistoryRecords t"
    unfolding whole by (simp only: of_nat_le_iff)
  have "set cleaned \<subseteq> set kept" unfolding c by (rule set_drop_subset)
  then have fresh: "\<forall>item \<in> set cleaned. now - historyRetentionMs t < timestamp item"
    by (auto simp: kept_def)
  have suffix: "kept = take (length kept - m) kept @ cleaned"
    unfolding c by simp
  have metrics: "consumptionHistory (snd (getMetrics t now)) = cleaned"
    by (simp add: getMetrics_state cleaned_def)
  have hist: "fst (getConsumptionHistory t now) = cleaned"
    "consumptionHistory (snd (getConsumptionHistory t now)) = cleaned"
    by (simp_all add: getConsumptionHistory_def cleaned_def Let_def)
  have setmax: "fst (setMaxHistoryRecords t now (rat_of_nat count)) = Inr ()
      \<and> consumptionHistory (snd (setMaxHistoryRecords t now (rat_of_nat count)))
          = drop (length kept - count) kept" if "0 < count"
    using that
    by (simp add: setMaxHistoryRecords_def cleanupHistory_history kept_def splice_front_whole)
  have cons: "consumptionHistory (snd (consume t now reqId est md))
      = consumptionHistory
          (cleanupHistory (t \<lparr> consumptionHistory := consumptionHistory t @ [newrec] \<rparr>) now)
      \<and> rat_of_nat
            (length (consumptionHistory
               (cleanupHistory
                  (t \<lparr> consumptionHistory := consumptionHistory t @ [newrec] \<rparr>) now)))
          \<le> maxHistoryRecords t"
    if ok: "fst (consume t now reqId est md) = Inr True"
  proof -
    have id: "\<not> (reqId = [] \<or> trim reqId = [])"
      using ok by (auto simp: consume_def)
    have h: "consumptionHistory (snd (consume t now reqId est md))
      = consumptionHistory
          (cleanupHistory (t \<lparr> consumptionHistory := consumptionHistory t @ [newrec] \<rparr>) now)"
      using ok unfolding consume_eq [OF id] Let_def newrec_def
      by (auto simp: cleanupHistory_history add.commute split: if_splits)
    have "length (consumptionHistory
            (cleanupHistory (t \<lparr> consumptionHistory := consumptionHistory t @ [newrec] \<rparr>) now))
          \<le> m"
    proof -
      have "maxHistoryRecords (t \<lparr> consumptionHistory := consumptionHistory t @ [newrec] \<rparr>)
            = rat_of_nat m"
        using whole by simp
      then show ?thesis by (simp only: cleanupHistory_whole length_drop)
    qed
    then have "rat_of_nat
            (length (consumptionHistory
               (cleanupHistory
                  (t \<lparr> consumptionHistory := consumptionHistory t @ [newrec] \<rparr>) now)))
          \<le> rat_of_nat m"
      by (simp only: of_nat_le_iff)
    then show ?thesis using h whole by simp
  qed
  show ?thesis
    unfolding Let_def kept_def [symmetric] cleaned_def [symmetric] newrec_def [symmetric]
    using c len bound fresh suffix metrics hist setmax cons adjustConsumption_keeps_all
    by simp
qed

theorem cleanupHistory_bounds_witness:
  "length (consumptionHistory bulk_throttle) = 50
   \<and> maxHistoryRecords bulk_throttle = rat_of_nat 10
   \<and> map timestamp (consumptionHistory (snd (getMetrics bulk_throttle 49)))
       = [40, 41, 42, 43, 44, 45, 46, 47, 48, 49]
   \<and> fst (consume consumed_throttle 120000 ''request-2'' 200 None) = Inr True
   \<and> map timestamp (consumptionHistory (snd (consume consumed_throttle 120000 ''request-2'' 200 None)))
       = [120000]"
proof -
  have all: "filter (\<lambda>item. 49 - historyRetentionMs bulk_throttle < timestamp item)
               (consumptionHistory bulk_throttle)
             = consumptionHistory bulk_throttle"
    by (rule filter_True) (auto simp: bulk_throttle_def example_throttle_def)
  have "(50 :: nat) - 10 = 40" by simp
  then have d: "drop (50 - 10) [0..<50] = [40..<50]"
    by (simp only: drop_upt) simp
  have u: "[40..<50] = [40, 41, 42, 43, 44, 45, 46, 47, 48, 49 :: nat]"
    by (simp add: upt_rec_numeral)
  have r: "maxHistoryRecords bulk_throttle = rat_of_nat 10"
    "length (consumptionHistory bulk_throttle) = 50"
    by (simp_all add: bulk_throttle_def example_throttle_def)
  have w: "maxHistoryRecords consumed_throttle = rat_of_nat 10000"
    by (simp add: consumed_throttle_eq)
  have m: "map timestamp (consumptionHistory (snd (getMetrics bulk_throttle 49)))
       = [40, 41, 42, 43, 44, 45, 46, 47, 48, 49]"
    using cleanupHistory_bounds [OF r(1), of 49 0 "[]" None 1 0]
    unfolding Let_def all r(2)
    by (simp add: bulk_throttle_def example_throttle_def drop_map d u)
  have c: "fst (consume consumed_throttle 120000 ''request-2'' 200 None) = Inr True"
    by (simp add: consumed_throttle_eq eval_defs)
  have e: "map timestamp (consumptionHistory (snd (consume consumed_throttle 120000 ''request-2'' 200 None)))
       = [120000]"
    using c cleanupHistory_bounds [OF w, of 120000 200 "''request-2''" None 1 0]
    by (simp add: consumed_throttle_eq eval_defs)
  show ?thesis using m c e r
    by (simp only: simp_thms)
qed

text \<open>
  A bound that is not a whole number: with three records and \<open>maxHistoryRecords = 5 / 2\<close>
  the excess is \<open>1 / 2\<close>, \<^verbatim>\<open>splice\<close> removes nothing, and the three records stay.
\<close>

lemma fractional_bound_keeps_all:
  "map timestamp
     (consumptionHistory
        (cleanupHistory
           (bulk_throttle \<lparr> maxHistoryRecords := 5 / 2,
                            consumptionHistory := take 3 (consumptionHistory bulk_throttle) \<rparr>)
           49))
   = [0, 1, 2]"
proof -
  have t: "take 3 [0..<50] = [0, 1, 2 :: nat]"
    by code_simp
  show ?thesis
    by (simp add: bulk_throttle_def example_throttle_def cleanupHistory_def splice_front_def
        Let_def take_map t)
qed

subsection \<open>Efficiency\<close>




subsection \<open>Failing calls\<close>

text \<open>
  The failures that do leave the engine as it was: an empty or blank request id and a
  negative \<open>estimate + compensationDebt\<close> in \<^verbatim>\<open>consume\<close>, a negative actual count and an
  unknown request id in \<^verbatim>\<open>adjustConsumption\<close>.
\<close>

lemma failing_calls_leave_state:
  "reqId = [] \<or> trim reqId = [] \<Longrightarrow>
     consume t now reqId est md = (Inl (Error ''Request ID cannot be empty''), t)"
  "\<not> (reqId = [] \<or> trim reqId = []) \<Longrightarrow> est + compensationDebt t < 0 \<Longrightarrow>
     consume t now reqId est md = (Inl (Error ''Estimated tokens cannot be negative''), t)"
  "actual < 0 \<Longrightarrow>
     adjustConsumption t now reqId actual
       = (Inl (Error ''Actual tokens cannot be negative''), t)"
  "0 \<le> actual \<Longrightarrow>
   find (\<lambda>item. requestId item = reqId) (consumptionHistory t) = None \<Longrightarrow>
     adjustConsumption t now reqId actual
       = (Inl (Error (''Request ID '' @ [CHR 0x27] @ reqId @ [CHR 0x27]
                       @ '' not found in consumption history'')), t)"
  by (simp_all add: consume_def canProcess_def adjustConsumption_def Let_def)

text \<open>
  C6 fails on the code for \<^verbatim>\<open>consume\<close> with a negative estimate. The only test for a
  negative count is the one in \<^verbatim>\<open>canProcess\<close>, which \<^verbatim>\<open>consume\<close> calls with
  \<open>estimate + compensationDebt\<close>. With a debt of 50 (strategy \<^verbatim>\<open>compensate\<close>, after a
  reconciliation from 100 to 150 on an exhausted volume bucket), \<^verbatim>\<open>consume\<close> of \<open>- 10\<close>
  returns true, debits 40 tokens, clears the debt and appends a record with
  \<open>tokens = - 10\<close>, after which \<^verbatim>\<open>validateState\<close> reports an inconsistent state.
\<close>

theorem consume_accepts_negative_estimate:
  "new_LLMThrottle compensate_config 0 = Inr compensate_throttle
   \<and> debt_throttle
       = snd (adjustConsumption (snd (consume compensate_throttle 0 ''a'' 100 None)) 0 ''a'' 150)
   \<and> compensationDebt debt_throttle = 50
   \<and> fst (consume debt_throttle 30000 ''b'' (- 10) None) = Inr True
   \<and> map tokens (consumptionHistory (snd (consume debt_throttle 30000 ''b'' (- 10) None)))
       = [150, - 10]
   \<and> b_available (tpmBucket (snd (consume debt_throttle 30000 ''b'' (- 10) None))) = 10
   \<and> compensationDebt (snd (consume debt_throttle 30000 ''b'' (- 10) None)) = 0
   \<and> fst (validateState (snd (consume debt_throttle 30000 ''b'' (- 10) None)) 30000) = False"
proof -
  have reached: "debt_throttle
       = snd (adjustConsumption (snd (consume compensate_throttle 0 ''a'' 100 None)) 0 ''a'' 150)"
    by (simp only: debt_throttle_def)
  have run: "compensationDebt debt_throttle = 50
   \<and> fst (consume debt_throttle 30000 ''b'' (- 10) None) = Inr True
   \<and> map tokens (consumptionHistory (snd (consume debt_throttle 30000 ''b'' (- 10) None)))
       = [150, - 10]
   \<and> b_available (tpmBucket (snd (consume debt_throttle 30000 ''b'' (- 10) None))) = 10
   \<and> compensationDebt (snd (consume debt_throttle 30000 ''b'' (- 10) None)) = 0
   \<and> fst (validateState (snd (consume debt_throttle 30000 ''b'' (- 10) None)) 30000) = False"
    by (simp add: debt_throttle_eq eval_defs)
  show ?thesis
    using example_throttle_constructed(2) reached run by (simp only: simp_thms)
qed

end
